theory Spec2Isabelle
  imports Complex_Main "HOL-Library.Word"
begin

section \<open>Smart-plug firmware: the adaptive calibration engine\<close>

text \<open>
  A shallow embedding of \<^verbatim>\<open>sct_calibration.c\<close>, of the measurement engine of
  \<^verbatim>\<open>udp_sender.c\<close> and of the calibration commands of \<^verbatim>\<open>udp_receiver.c\<close>.

  Conventions of the embedding.
  \<^item> A C \<^verbatim>\<open>float\<close> is a \<^typ>\<open>real\<close>: arithmetic is exact, there is no rounding, no
    infinity and no NaN. The one exception is the confidence of a recognition: products
    of the constants of the catalog meet its threshold exactly, so that the rounding
    decides the branch, and its arithmetic is binary32. A division by zero, which yields an infinity or a NaN in C,
    is \<open>0\<close> in HOL. The only divisor of the source that can be zero is the scale
    factor read by \<^verbatim>\<open>get_amps_per_volt\<close> for the approximate voltage of an
    automatic learning point; every other divisor is a nonzero constant or is positive
    where it is used.
  \<^item> A \<^verbatim>\<open>uint32_t\<close> is a \<^typ>\<open>32 word\<close>: additions and subtractions wrap.
    The \<^verbatim>\<open>int\<close> counters and indices of the source stay far below their range
    and are natural numbers.
  \<^item> The module-level and function-level \<^verbatim>\<open>static\<close> variables of the three files
    are the fields of one record, passed through every function.
  \<^item> The outside world is part of that record. \<open>adc_in\<close> is the sequence of the results of
    the successive \<^verbatim>\<open>adc_oneshot_read\<close> calls (\<open>None\<close> is a failed read), \<open>tick_in\<close>
    the sequence of the successive values of
    \<^verbatim>\<open>xTaskGetTickCount() * portTICK_PERIOD_MS\<close>; \<open>adc_reads\<close> and \<open>tick_reads\<close>
    count the calls made so far. \<^verbatim>\<open>vTaskDelay\<close> and logging leave the record unchanged.
  \<^item> The functions are run one at a time. \<open>mutex_busy\<close> tells whether another task holds
    \<^verbatim>\<open>calibration_mutex\<close> for longer than the 100 ms that \<^verbatim>\<open>xSemaphoreTake\<close>
    waits: a guarded section is then skipped, as in the source.
\<close>

subsection \<open>Types of \<^verbatim>\<open>sct_calibration.h\<close>\<close>

type_synonym uint32 = "32 word"

record device_profile =
  min_current :: real
  max_current :: real
  typical_current :: real
  device_name :: string
  confidence_boost :: real

record calibration_point =
  expected_current :: real
  measured_voltage :: real
  timestamp :: uint32
  confidence :: real
  auto_generated :: bool

subsection \<open>Constants of \<^verbatim>\<open>hardware_config.h\<close>\<close>

abbreviation ADC_RESOLUTION :: real where "ADC_RESOLUTION \<equiv> 4095"
abbreviation ADC_VOLTAGE_RANGE :: real where "ADC_VOLTAGE_RANGE \<equiv> 3.3"
abbreviation ADC_BIAS_VOLTAGE :: real where "ADC_BIAS_VOLTAGE \<equiv> 1.65"
abbreviation MAX_CURRENT_AMPS :: real where "MAX_CURRENT_AMPS \<equiv> 100"
abbreviation SCT_013_THEORETICAL_SCALE :: real where "SCT_013_THEORETICAL_SCALE \<equiv> 200"
abbreviation AUTO_CAL_ZERO_INTERVAL_MS :: uint32 where "AUTO_CAL_ZERO_INTERVAL_MS \<equiv> 1800000"
abbreviation AUTO_CAL_VARIANCE_THRESHOLD :: real where "AUTO_CAL_VARIANCE_THRESHOLD \<equiv> 0.1"
abbreviation AUTO_CAL_MIN_CURRENT :: real where "AUTO_CAL_MIN_CURRENT \<equiv> 0.5"
abbreviation AUTO_CAL_MAX_CURRENT :: real where "AUTO_CAL_MAX_CURRENT \<equiv> 15"
abbreviation AUTO_CAL_ZERO_THRESHOLD :: real where "AUTO_CAL_ZERO_THRESHOLD \<equiv> 0.05"
abbreviation AUTO_CAL_CONSECUTIVE_ZERO_COUNT :: uint32 where
  "AUTO_CAL_CONSECUTIVE_ZERO_COUNT \<equiv> 150"
abbreviation MAX_LEARNING_POINTS :: nat where "MAX_LEARNING_POINTS \<equiv> 50"
abbreviation LEARNING_CONFIDENCE_DECAY :: real where "LEARNING_CONFIDENCE_DECAY \<equiv> 0.95"
abbreviation MIN_LEARNING_POINTS :: nat where "MIN_LEARNING_POINTS \<equiv> 3"
abbreviation DEVICE_RECOGNITION_CONFIDENCE :: real where "DEVICE_RECOGNITION_CONFIDENCE \<equiv> 0.9"
abbreviation DEVICE_STABLE_TIME_MS :: uint32 where "DEVICE_STABLE_TIME_MS \<equiv> 180000"

subsection \<open>The state of the firmware\<close>

record fw =
  adc_in :: "nat \<Rightarrow> int option"
  adc_reads :: nat
  tick_in :: "nat \<Rightarrow> uint32"
  tick_reads :: nat
  mutex_busy :: bool
  amps_per_volt :: real
  bias_voltage :: real
  auto_detection_enabled :: bool
  auto_calibration_enabled :: bool
  detected_load_amps :: real
  last_zero_calibration :: uint32
  last_scale_calibration :: uint32
  consecutive_zero_readings :: uint32
  auto_cal_sensitivity :: real
  learning_rate :: real
  learning_points :: "calibration_point list"
  learning_point_count :: nat
  learning_point_index :: nat
  auto_cal_count :: uint32
  last_auto_cal_time :: uint32
  successful_recognitions :: uint32
  failed_recognitions :: uint32
  current_history :: "real list"
  history_index :: nat
  history_full :: bool
  stable_load_start :: uint32
  stable_load_value :: real
  in_stable_period :: bool
  last_adjustment :: uint32
  voltage_buffer :: "real list"
  buffer_index :: nat
  buffer_filled :: bool
  measurement_count :: uint32
  last_measured_vrms :: real
  total_measurements :: uint32
  stats_min_current :: real
  stats_max_current :: real
  accumulated_current :: real

text \<open>
  \<open>stats_min_current\<close> and \<open>stats_max_current\<close> are the statics \<^verbatim>\<open>min_current\<close> and
  \<^verbatim>\<open>max_current\<close> of \<^verbatim>\<open>udp_sender.c\<close>, renamed apart from the fields of a device
  profile. \<open>stable_load_start\<close>, \<open>stable_load_value\<close> and \<open>in_stable_period\<close> are the
  statics of \<^verbatim>\<open>continuous_auto_calibration\<close>, \<open>last_adjustment\<close> the static of
  \<^verbatim>\<open>adaptive_threshold_adjustment\<close>.
\<close>

abbreviation HISTORY_SIZE :: nat where "HISTORY_SIZE \<equiv> 50"
abbreviation RMS_BUFFER_SIZE :: nat where "RMS_BUFFER_SIZE \<equiv> 100"

definition zero_point :: calibration_point where
  "zero_point = \<lparr>expected_current = 0, measured_voltage = 0, timestamp = 0,
     confidence = 0, auto_generated = False\<rparr>"

text \<open>The static initialisers of the three files, in front of an outside world.\<close>

definition initial_state :: "(nat \<Rightarrow> int option) \<Rightarrow> (nat \<Rightarrow> uint32) \<Rightarrow> fw" where
  "initial_state adc ticks =
    \<lparr>adc_in = adc, adc_reads = 0, tick_in = ticks, tick_reads = 0, mutex_busy = False,
     amps_per_volt = 200, bias_voltage = 1.65,
     auto_detection_enabled = True, auto_calibration_enabled = True,
     detected_load_amps = 0,
     last_zero_calibration = 0, last_scale_calibration = 0, consecutive_zero_readings = 0,
     auto_cal_sensitivity = 0.7, learning_rate = 0.1,
     learning_points = replicate MAX_LEARNING_POINTS zero_point,
     learning_point_count = 0, learning_point_index = 0,
     auto_cal_count = 0, last_auto_cal_time = 0,
     successful_recognitions = 0, failed_recognitions = 0,
     current_history = replicate HISTORY_SIZE 0, history_index = 0, history_full = False,
     stable_load_start = 0, stable_load_value = 0, in_stable_period = False,
     last_adjustment = 0,
     voltage_buffer = replicate RMS_BUFFER_SIZE 0, buffer_index = 0, buffer_filled = False,
     measurement_count = 0, last_measured_vrms = 0, total_measurements = 0,
     stats_min_current = 999999, stats_max_current = 0, accumulated_current = 0\<rparr>"

subsection \<open>The outside world\<close>

definition adc_oneshot_read :: "fw \<Rightarrow> int option \<times> fw" where
  "adc_oneshot_read s = (adc_in s (adc_reads s), s\<lparr>adc_reads := Suc (adc_reads s)\<rparr>)"

definition tick_count_ms :: "fw \<Rightarrow> uint32 \<times> fw" where
  "tick_count_ms s = (tick_in s (tick_reads s), s\<lparr>tick_reads := Suc (tick_reads s)\<rparr>)"

definition adc_to_voltage :: "int \<Rightarrow> real" where
  "adc_to_voltage adc_value = (real_of_int adc_value / ADC_RESOLUTION) * ADC_VOLTAGE_RANGE"

subsection \<open>The parameter store\<close>

definition set_bias_voltage :: "real \<Rightarrow> fw \<Rightarrow> fw" where
  "set_bias_voltage bias_v s = (if mutex_busy s then s else s\<lparr>bias_voltage := bias_v\<rparr>)"

definition get_bias_voltage :: "fw \<Rightarrow> real" where
  "get_bias_voltage s = (if mutex_busy s then 0 else bias_voltage s)"

definition set_amps_per_volt :: "real \<Rightarrow> fw \<Rightarrow> fw" where
  "set_amps_per_volt scale s = (if mutex_busy s then s else s\<lparr>amps_per_volt := scale\<rparr>)"

definition get_amps_per_volt :: "fw \<Rightarrow> real" where
  "get_amps_per_volt s = (if mutex_busy s then 0 else amps_per_volt s)"

definition get_detected_load_amps :: "fw \<Rightarrow> real" where
  "get_detected_load_amps s = (if mutex_busy s then 0 else detected_load_amps s)"

subsection \<open>Device recognition\<close>

definition known_devices :: "device_profile list" where
  "known_devices =
    [\<lparr>min_current = 0.4, max_current = 0.7, typical_current = 0.5,
       device_name = ''60W Incandescent Bulb'', confidence_boost = 1.2\<rparr>,
     \<lparr>min_current = 0.8, max_current = 1.2, typical_current = 1.0,
       device_name = ''100W Incandescent Bulb'', confidence_boost = 1.2\<rparr>,
     \<lparr>min_current = 4.0, max_current = 6.0, typical_current = 5.0,
       device_name = ''Hair Dryer Low Setting'', confidence_boost = 1.5\<rparr>,
     \<lparr>min_current = 10.0, max_current = 15.0, typical_current = 12.5,
       device_name = ''Hair Dryer High Setting'', confidence_boost = 1.5\<rparr>,
     \<lparr>min_current = 8.0, max_current = 12.0, typical_current = 10.0,
       device_name = ''Space Heater'', confidence_boost = 1.3\<rparr>,
     \<lparr>min_current = 12.0, max_current = 16.0, typical_current = 14.0,
       device_name = ''Microwave Oven'', confidence_boost = 1.4\<rparr>,
     \<lparr>min_current = 6.0, max_current = 10.0, typical_current = 8.0,
       device_name = ''Coffee Maker'', confidence_boost = 1.1\<rparr>,
     \<lparr>min_current = 0.1, max_current = 0.3, typical_current = 0.2,
       device_name = ''LED Strip/Small Electronics'', confidence_boost = 0.8\<rparr>,
     \<lparr>min_current = 2.0, max_current = 4.0, typical_current = 3.0,
       device_name = ''Laptop/Monitor'', confidence_boost = 0.9\<rparr>,
     \<lparr>min_current = 0.02, max_current = 0.1, typical_current = 0.05,
       device_name = ''Phone Charger/Standby'', confidence_boost = 0.5\<rparr>]"

definition num_known_devices :: nat where
  "num_known_devices = length known_devices"

text \<open>
  The loop of \<^verbatim>\<open>recognize_device\<close>, from index \<open>i\<close> on; \<open>k\<close> is the number of
  entries still to visit. The result is the index of the entry the C function returns a
  pointer to.
\<close>

fun recognize_from :: "nat \<Rightarrow> nat \<Rightarrow> real \<Rightarrow> nat option" where
  "recognize_from i 0 current_amps = None"
| "recognize_from i (Suc k) current_amps =
     (if current_amps \<ge> min_current (known_devices ! i) \<and>
         current_amps \<le> max_current (known_devices ! i)
      then Some i
      else recognize_from (Suc i) k current_amps)"

definition recognize_device :: "real \<Rightarrow> device_profile option" where
  "recognize_device current_amps =
     map_option (\<lambda>i. known_devices ! i) (recognize_from 0 num_known_devices current_amps)"

subsection \<open>The learning system\<close>

definition learn_from_calibration :: "real \<Rightarrow> real \<Rightarrow> bool \<Rightarrow> fw \<Rightarrow> fw" where
  "learn_from_calibration expected_current' measured_voltage' manual s =
     (let (now, s1) = tick_count_ms s;
          point = \<lparr>expected_current = expected_current',
                   measured_voltage = measured_voltage',
                   timestamp = now,
                   confidence = (if manual then 1.0 else 0.8),
                   auto_generated = \<not> manual\<rparr>
      in if learning_point_count s1 < MAX_LEARNING_POINTS
         then s1\<lparr>learning_points := (learning_points s1)[learning_point_count s1 := point],
                 learning_point_count := learning_point_count s1 + 1\<rparr>
         else s1\<lparr>learning_points := (learning_points s1)[learning_point_index s1 := point],
                 learning_point_index := (learning_point_index s1 + 1) mod MAX_LEARNING_POINTS\<rparr>)"

text \<open>
  The weight of one learning point, and one round of the loop of
  \<^verbatim>\<open>apply_learned_calibration\<close> on the triple
  \<open>(numerator, denominator, total_weight)\<close>.
\<close>

definition point_weight :: "uint32 \<Rightarrow> real \<Rightarrow> calibration_point \<Rightarrow> real" where
  "point_weight now rate p =
     (let age_ms = now - timestamp p;
          age_factor = LEARNING_CONFIDENCE_DECAY powr (real (unat age_ms) / (24 * 60 * 60 * 1000))
      in confidence p * age_factor * rate)"

definition learned_step :: "uint32 \<Rightarrow> real \<Rightarrow> calibration_point \<Rightarrow> real \<times> real \<times> real
    \<Rightarrow> real \<times> real \<times> real" where
  "learned_step now rate p acc =
     (case acc of (numerator, denominator, total_weight) \<Rightarrow>
        let weight = point_weight now rate p
        in if measured_voltage p > 0.001
           then (numerator + expected_current p * weight,
                 denominator + measured_voltage p * weight,
                 total_weight + weight)
           else (numerator, denominator, total_weight))"

text \<open>The loop, from index \<open>i\<close> on, with \<open>k\<close> rounds to go.\<close>

fun learned_sums :: "calibration_point list \<Rightarrow> uint32 \<Rightarrow> real \<Rightarrow> nat \<Rightarrow> nat
    \<Rightarrow> real \<times> real \<times> real \<Rightarrow> real \<times> real \<times> real" where
  "learned_sums pts now rate i 0 acc = acc"
| "learned_sums pts now rate i (Suc k) acc =
     learned_sums pts now rate (Suc i) k (learned_step now rate (pts ! i) acc)"

text \<open>The estimate \<^verbatim>\<open>learned_scale\<close> that the sums give.\<close>

definition learned_scale_of :: "real \<times> real \<times> real \<Rightarrow> real" where
  "learned_scale_of acc = (case acc of (numerator, denominator, total_weight) \<Rightarrow>
     numerator / denominator)"

definition apply_learned_calibration :: "fw \<Rightarrow> fw" where
  "apply_learned_calibration s =
     (if learning_point_count s < MIN_LEARNING_POINTS then s
      else
        let (now, s1) = tick_count_ms s;
            points_to_use = (if learning_point_count s1 < MAX_LEARNING_POINTS
                             then learning_point_count s1 else MAX_LEARNING_POINTS);
            acc = learned_sums (learning_points s1) now (learning_rate s1) 0 points_to_use (0, 0, 0)
        in case acc of (numerator, denominator, total_weight) \<Rightarrow>
             if denominator > 0.001 \<and> total_weight > 0.1
             then let learned_scale = learned_scale_of acc;
                      current_scale = get_amps_per_volt s1
                  in if learned_scale > current_scale * 0.5 \<and> learned_scale < current_scale * 1.5
                     then set_amps_per_volt (current_scale * 0.7 + learned_scale * 0.3) s1
                     else s1
             else s1)"

definition reset_learning_data :: "fw \<Rightarrow> fw" where
  "reset_learning_data s =
     s\<lparr>learning_points := replicate MAX_LEARNING_POINTS zero_point,
       learning_point_count := 0, learning_point_index := 0\<rparr>"

definition get_learning_point_count :: "fw \<Rightarrow> nat" where
  "get_learning_point_count s = learning_point_count s"

subsection \<open>Calibration against a known load\<close>

text \<open>
  One round of the sampling loop of \<^verbatim>\<open>calibrate_with_known_load\<close>, on the state and
  the pair \<open>(voltage_sum, valid_samples)\<close>, and the loop of \<open>k\<close> rounds.
\<close>

definition known_load_step :: "fw \<times> real \<times> nat \<Rightarrow> fw \<times> real \<times> nat" where
  "known_load_step c = (case c of (s, voltage_sum, valid_samples) \<Rightarrow>
     let (r, s1) = adc_oneshot_read s
     in case r of
          None \<Rightarrow> (s1, voltage_sum, valid_samples)
        | Some adc_value \<Rightarrow>
            let voltage = adc_to_voltage adc_value;
                ac_voltage = \<bar>voltage - bias_voltage s1\<bar>
            in if ac_voltage > 0.001
               then (s1, voltage_sum + ac_voltage, valid_samples + 1)
               else (s1, voltage_sum, valid_samples))"

fun known_load_loop :: "nat \<Rightarrow> fw \<times> real \<times> nat \<Rightarrow> fw \<times> real \<times> nat" where
  "known_load_loop 0 c = c"
| "known_load_loop (Suc k) c = known_load_loop k (known_load_step c)"

definition calibrate_with_known_load :: "real \<Rightarrow> fw \<Rightarrow> fw" where
  "calibrate_with_known_load known_amps s =
     (if known_amps \<le> 0 \<or> known_amps > MAX_CURRENT_AMPS then s
      else
        case known_load_loop 50 (s, 0, 0) of (s1, voltage_sum, valid_samples) \<Rightarrow>
          if valid_samples > 10
          then let avg_voltage = voltage_sum / real valid_samples;
                   new_scale = known_amps / avg_voltage;
                   s2 = (if mutex_busy s1 then s1 else s1\<lparr>amps_per_volt := new_scale\<rparr>);
                   s3 = learn_from_calibration known_amps avg_voltage True s2;
                   (now, s4) = tick_count_ms s3
               in s4\<lparr>last_auto_cal_time := now\<rparr>
          else s1)"

subsection \<open>Binary32 arithmetic\<close>

text \<open>
  The value of type \<^verbatim>\<open>float\<close> nearest to a real number: 24 significant bits, ties to
  the even significand, gradual underflow below \<open>pow2 (- 126)\<close>. The values met here
  stay far below the largest finite one, and overflow is left out.

  \<open>f32_exponent\<close> searches the exponent \<open>e\<close> with \<open>pow2 e \<le> a < pow2 (e + 1)\<close> of a
  positive number by halving and doubling; its first argument bounds the number of steps,
  and 300 of them cover every exponent of the format.
\<close>

definition round_half_even :: "real \<Rightarrow> int" where
  "round_half_even q =
     (let f = \<lfloor>q\<rfloor>; d = q - of_int f
      in if d < 1 / 2 then f else if d > 1 / 2 then f + 1 else if even f then f else f + 1)"

fun f32_exponent :: "nat \<Rightarrow> real \<Rightarrow> int" where
  "f32_exponent 0 a = 0"
| "f32_exponent (Suc k) a =
     (if a \<ge> 2 then 1 + f32_exponent k (a / 2)
      else if a < 1 then f32_exponent k (a * 2) - 1
      else 0)"

definition pow2 :: "int \<Rightarrow> real" where
  "pow2 e = (if e \<ge> 0 then 2 ^ nat e else 1 / 2 ^ nat (- e))"

definition f32 :: "real \<Rightarrow> real" where
  "f32 x =
     (if x = 0 then 0
      else let e = max (f32_exponent 300 \<bar>x\<bar>) (- 126);
               ulp = pow2 (e - 23)
           in of_int (round_half_even (x / ulp)) * ulp)"

definition f32_sub :: "real \<Rightarrow> real \<Rightarrow> real" where
  "f32_sub a b = f32 (a - b)"

definition f32_mul :: "real \<Rightarrow> real \<Rightarrow> real" where
  "f32_mul a b = f32 (a * b)"

definition f32_div :: "real \<Rightarrow> real \<Rightarrow> real" where
  "f32_div a b = f32 (a / b)"

subsection \<open>Recognition and calibration of a stable load\<close>

text \<open>
  The two local variables \<^verbatim>\<open>match_quality\<close> and \<^verbatim>\<open>confidence\<close> of
  \<^verbatim>\<open>auto_recognize_and_calibrate\<close>, in the binary32 arithmetic of the source: the
  constants of the catalog, the sensitivity and the threshold \<^verbatim>\<open>0.9f\<close> are the
  \<^verbatim>\<open>float\<close> values of their decimals, and every operation rounds.
\<close>

definition match_quality :: "device_profile \<Rightarrow> real \<Rightarrow> real" where
  "match_quality device measured_current =
     f32_sub 1.0
       (f32_div \<bar>f32_sub (f32 measured_current) (f32 (typical_current device))\<bar>
                (f32_sub (f32 (max_current device)) (f32 (min_current device))))"

definition recognition_confidence :: "device_profile \<Rightarrow> real \<Rightarrow> real \<Rightarrow> real" where
  "recognition_confidence device measured_current sensitivity =
     f32_mul (f32_mul (match_quality device measured_current) (f32 (confidence_boost device)))
             (f32 sensitivity)"

definition auto_recognize_and_calibrate :: "real \<Rightarrow> fw \<Rightarrow> fw" where
  "auto_recognize_and_calibrate measured_current s =
     (case recognize_device measured_current of
        None \<Rightarrow> s
      | Some device \<Rightarrow>
          let confidence' = recognition_confidence device measured_current (auto_cal_sensitivity s)
          in if confidence' > f32 DEVICE_RECOGNITION_CONFIDENCE
             then let s1 = calibrate_with_known_load (typical_current device) s;
                      s2 = s1\<lparr>successful_recognitions := successful_recognitions s1 + 1\<rparr>;
                      measured_vrms = measured_current / get_amps_per_volt s2
                  in learn_from_calibration (typical_current device) measured_vrms False s2
             else s\<lparr>failed_recognitions := failed_recognitions s + 1\<rparr>)"

subsection \<open>History and stability detector\<close>

text \<open>
  The two loops of \<^verbatim>\<open>continuous_auto_calibration\<close> over \<^verbatim>\<open>current_history\<close>,
  from index \<open>i\<close> on with \<open>k\<close> rounds to go: the sum for the mean, and the sum of the
  squared differences for the variance.
\<close>

fun history_sum :: "real list \<Rightarrow> nat \<Rightarrow> nat \<Rightarrow> real \<Rightarrow> real" where
  "history_sum h i 0 mean = mean"
| "history_sum h i (Suc k) mean = history_sum h (Suc i) k (mean + h ! i)"

fun history_sq_sum :: "real list \<Rightarrow> real \<Rightarrow> nat \<Rightarrow> nat \<Rightarrow> real \<Rightarrow> real" where
  "history_sq_sum h mean i 0 variance = variance"
| "history_sq_sum h mean i (Suc k) variance =
     history_sq_sum h mean (Suc i) k
       (let diff = h ! i - mean in variance + diff * diff)"

definition history_mean :: "real list \<Rightarrow> real" where
  "history_mean h = history_sum h 0 HISTORY_SIZE 0 / real HISTORY_SIZE"

definition history_variance :: "real list \<Rightarrow> real" where
  "history_variance h = history_sq_sum h (history_mean h) 0 HISTORY_SIZE 0 / real HISTORY_SIZE"

definition is_stable :: "real list \<Rightarrow> bool" where
  "is_stable h \<longleftrightarrow>
     history_variance h < AUTO_CAL_VARIANCE_THRESHOLD \<and>
     history_mean h \<ge> AUTO_CAL_MIN_CURRENT \<and>
     history_mean h \<le> AUTO_CAL_MAX_CURRENT"

definition continuous_auto_calibration :: "real \<Rightarrow> fw \<Rightarrow> fw" where
  "continuous_auto_calibration current_reading s =
     (if current_reading < AUTO_CAL_ZERO_THRESHOLD
      then s\<lparr>consecutive_zero_readings := consecutive_zero_readings s + 1\<rparr>
      else
        let s0 = s\<lparr>consecutive_zero_readings := 0\<rparr>
        in if history_full s0
           then
             let mean = history_mean (current_history s0);
                 stable = is_stable (current_history s0)
             in if stable \<and> \<not> in_stable_period s0
                then
                  let (now, s1) = tick_count_ms s0;
                      s2 = s1\<lparr>stable_load_start := now, stable_load_value := mean,
                              in_stable_period := True\<rparr>
                  in auto_recognize_and_calibrate (stable_load_value s2) s2
                else if stable \<and> in_stable_period s0
                then
                  let (now, s1) = tick_count_ms s0
                  in if now - stable_load_start s1 > DEVICE_STABLE_TIME_MS
                     then
                       let time_since_last = now - last_scale_calibration s1;
                           s2 = (if time_since_last > AUTO_CAL_ZERO_INTERVAL_MS
                                 then
                                   let s3 = calibrate_with_known_load (stable_load_value s1) s1;
                                       s4 = s3\<lparr>last_scale_calibration := now,
                                               auto_cal_count := auto_cal_count s3 + 1\<rparr>;
                                       measured_vrms = stable_load_value s4 / get_amps_per_volt s4
                                   in learn_from_calibration (stable_load_value s4) measured_vrms
                                        False s4
                                 else s1)
                       in s2\<lparr>in_stable_period := False\<rparr>
                     else s1
                else if \<not> stable
                then s0\<lparr>in_stable_period := False\<rparr>
                else s0
           else s0)"

definition process_current_for_auto_calibration :: "real \<Rightarrow> fw \<Rightarrow> fw" where
  "process_current_for_auto_calibration current_amps s =
     (if \<not> auto_calibration_enabled s then s
      else
        let s1 = s\<lparr>current_history := (current_history s)[history_index s := current_amps],
                   history_index := (history_index s + 1) mod HISTORY_SIZE\<rparr>;
            s2 = (if history_index s1 = 0 then s1\<lparr>history_full := True\<rparr> else s1);
            s3 = (if mutex_busy s2 then s2 else s2\<lparr>detected_load_amps := current_amps\<rparr>)
        in continuous_auto_calibration current_amps s3)"

subsection \<open>The periodic controller\<close>

definition should_auto_calibrate_zero :: "fw \<Rightarrow> bool \<times> fw" where
  "should_auto_calibrate_zero s =
     (if \<not> auto_calibration_enabled s then (False, s)
      else
        let (now, s1) = tick_count_ms s;
            time_for_calibration = (now - last_zero_calibration s1 > AUTO_CAL_ZERO_INTERVAL_MS);
            consistent_zeros = (consecutive_zero_readings s1 > AUTO_CAL_CONSECUTIVE_ZERO_COUNT)
        in (time_for_calibration \<and> consistent_zeros, s1))"

definition success_rate :: "fw \<Rightarrow> real" where
  "success_rate s =
     (if successful_recognitions s + failed_recognitions s > 0
      then real (unat (successful_recognitions s)) /
           real (unat (successful_recognitions s + failed_recognitions s))
      else 0.5)"

definition adaptive_threshold_adjustment :: "fw \<Rightarrow> fw" where
  "adaptive_threshold_adjustment s =
     (let (now, s1) = tick_count_ms s
      in if now - last_adjustment s1 < 60 * 60 * 1000 then s1
         else
           let s2 = (if success_rate s1 > 0.8 \<and> auto_cal_sensitivity s1 < 0.9
                     then s1\<lparr>auto_cal_sensitivity := auto_cal_sensitivity s1 + 0.05\<rparr>
                     else if success_rate s1 < 0.4 \<and> auto_cal_sensitivity s1 > 0.3
                     then s1\<lparr>auto_cal_sensitivity := auto_cal_sensitivity s1 - 0.05\<rparr>
                     else s1)
           in s2\<lparr>last_adjustment := now\<rparr>)"

definition set_auto_cal_sensitivity :: "real \<Rightarrow> fw \<Rightarrow> fw" where
  "set_auto_cal_sensitivity sensitivity s =
     (if sensitivity \<ge> 0.0 \<and> sensitivity \<le> 1.0
      then s\<lparr>auto_cal_sensitivity := sensitivity\<rparr> else s)"

definition get_auto_cal_sensitivity :: "fw \<Rightarrow> real" where
  "get_auto_cal_sensitivity s = auto_cal_sensitivity s"

definition set_learning_rate :: "real \<Rightarrow> fw \<Rightarrow> fw" where
  "set_learning_rate rate s =
     (if rate \<ge> 0.0 \<and> rate \<le> 1.0 then s\<lparr>learning_rate := rate\<rparr> else s)"

definition get_learning_rate :: "fw \<Rightarrow> real" where
  "get_learning_rate s = learning_rate s"

definition reset_auto_cal_statistics :: "fw \<Rightarrow> fw" where
  "reset_auto_cal_statistics s =
     s\<lparr>auto_cal_count := 0, successful_recognitions := 0, failed_recognitions := 0,
       last_auto_cal_time := 0\<rparr>"

text \<open>
  \<^verbatim>\<open>set_auto_calibration\<close> also starts the controller task when it enables the
  controller; tasks are outside the embedding.
\<close>

definition set_auto_calibration :: "bool \<Rightarrow> fw \<Rightarrow> fw" where
  "set_auto_calibration enabled s =
     (if mutex_busy s then s else s\<lparr>auto_calibration_enabled := enabled\<rparr>)"

definition set_auto_detection :: "bool \<Rightarrow> fw \<Rightarrow> fw" where
  "set_auto_detection enabled s =
     (if mutex_busy s then s else s\<lparr>auto_detection_enabled := enabled\<rparr>)"

text \<open>The sampling loop of \<^verbatim>\<open>auto_detect_load_current\<close> on \<open>(total', valid_samples)\<close>.\<close>

definition detect_step :: "fw \<times> real \<times> nat \<Rightarrow> fw \<times> real \<times> nat" where
  "detect_step c = (case c of (s, total', valid_samples) \<Rightarrow>
     let (r, s1) = adc_oneshot_read s
     in case r of
          None \<Rightarrow> (s1, total', valid_samples)
        | Some adc_value \<Rightarrow>
            let voltage = adc_to_voltage adc_value;
                ac_voltage = \<bar>voltage - bias_voltage s1\<bar>;
                current = ac_voltage * amps_per_volt s1
            in if current \<ge> 0.0 \<and> current < MAX_CURRENT_AMPS
               then (s1, total' + current, valid_samples + 1)
               else (s1, total', valid_samples))"

fun detect_loop :: "nat \<Rightarrow> fw \<times> real \<times> nat \<Rightarrow> fw \<times> real \<times> nat" where
  "detect_loop 0 c = c"
| "detect_loop (Suc k) c = detect_loop k (detect_step c)"

definition auto_detect_load_current :: "fw \<Rightarrow> fw" where
  "auto_detect_load_current s =
     (if \<not> auto_detection_enabled s then s
      else
        case detect_loop 20 (s, 0, 0) of (s1, total', valid_samples) \<Rightarrow>
          if valid_samples > 0
          then let avg_current = total' / real valid_samples;
                   s2 = (if mutex_busy s1 then s1 else s1\<lparr>detected_load_amps := avg_current\<rparr>)
               in process_current_for_auto_calibration avg_current s2
          else s1)"

text \<open>
  The sampling loop of \<^verbatim>\<open>auto_calibrate_bias_voltage\<close> on
  \<open>(voltage_sum, valid_samples)\<close>; the sum is a \<^verbatim>\<open>uint32_t\<close>.
\<close>

definition bias_step :: "fw \<times> uint32 \<times> nat \<Rightarrow> fw \<times> uint32 \<times> nat" where
  "bias_step c = (case c of (s, voltage_sum, valid_samples) \<Rightarrow>
     let (r, s1) = adc_oneshot_read s
     in case r of
          None \<Rightarrow> (s1, voltage_sum, valid_samples)
        | Some adc_value \<Rightarrow> (s1, voltage_sum + word_of_int adc_value, valid_samples + 1))"

fun bias_loop :: "nat \<Rightarrow> fw \<times> uint32 \<times> nat \<Rightarrow> fw \<times> uint32 \<times> nat" where
  "bias_loop 0 c = c"
| "bias_loop (Suc k) c = bias_loop k (bias_step c)"

definition auto_calibrate_bias_voltage :: "fw \<Rightarrow> fw" where
  "auto_calibrate_bias_voltage s =
     (case bias_loop 100 (s, 0, 0) of (s1, voltage_sum, valid_samples) \<Rightarrow>
        if valid_samples > 50
        then let avg_adc = real (unat voltage_sum) / real valid_samples;
                 new_bias = (avg_adc / ADC_RESOLUTION) * ADC_VOLTAGE_RANGE;
                 s2 = (if mutex_busy s1 then s1 else s1\<lparr>bias_voltage := new_bias\<rparr>)
             in s2\<lparr>consecutive_zero_readings := 0\<rparr>
        else s1)"

text \<open>One round of the \<^verbatim>\<open>while\<close> loop of \<^verbatim>\<open>auto_calibration_task\<close>.\<close>

definition auto_calibration_round :: "fw \<Rightarrow> fw" where
  "auto_calibration_round s =
     (let (due, s1) = should_auto_calibrate_zero s;
          s2 = (if due
                then let s3 = auto_calibrate_bias_voltage s1;
                         (now, s4) = tick_count_ms s3
                     in s4\<lparr>last_zero_calibration := now, auto_cal_count := auto_cal_count s4 + 1\<rparr>
                else s1);
          s5 = (if learning_point_count s2 \<ge> MIN_LEARNING_POINTS
                then apply_learned_calibration s2 else s2)
      in adaptive_threshold_adjustment s5)"

subsection \<open>The commands that calibrate\<close>

text \<open>
  A response is the format string given to \<^verbatim>\<open>snprintf\<close> together with its
  arguments; the formatting itself is outside the embedding.
\<close>

datatype arg = F real | S string | D int

type_synonym response = "string \<times> arg list"

definition perform_zero_calibration :: "fw \<Rightarrow> fw \<times> response" where
  "perform_zero_calibration s =
     (let s1 = auto_calibrate_bias_voltage s
      in (s1, (''ZERO_CAL:SUCCESS,BIAS=%.4f'', [F (get_bias_voltage s1)])))"

definition perform_scale_calibration :: "real \<Rightarrow> fw \<Rightarrow> fw \<times> response" where
  "perform_scale_calibration known_current s =
     (let s1 = calibrate_with_known_load known_current s
      in (s1, (''SCALE_CAL:SUCCESS,SCALE=%.2f'', [F (get_amps_per_volt s1)])))"

definition reset_calibration :: "fw \<Rightarrow> fw \<times> response" where
  "reset_calibration s =
     (let s1 = set_bias_voltage ADC_BIAS_VOLTAGE s;
          s2 = set_amps_per_volt SCT_013_THEORETICAL_SCALE s1;
          s3 = reset_learning_data s2;
          s4 = reset_auto_cal_statistics s3
      in (s4, (''RESET_CAL:SUCCESS,BIAS=%.4f,SCALE=%.2f'',
               [F (get_bias_voltage s4), F (get_amps_per_volt s4)])))"

subsection \<open>The measurement engine of \<^verbatim>\<open>udp_sender.c\<close>\<close>

text \<open>
  One round of the sampling loop of \<^verbatim>\<open>measure_rms_current\<close>, on the state and the
  pair \<open>(voltage_sum_squared, valid_samples)\<close>, and the loop of \<open>k\<close> rounds.
\<close>

definition rms_step :: "fw \<times> real \<times> nat \<Rightarrow> fw \<times> real \<times> nat" where
  "rms_step c = (case c of (s, voltage_sum_squared, valid_samples) \<Rightarrow>
     let (r, s1) = adc_oneshot_read s
     in case r of
          None \<Rightarrow> (s1, voltage_sum_squared, valid_samples)
        | Some adc_value \<Rightarrow>
            let voltage = adc_to_voltage adc_value;
                ac_voltage = voltage - get_bias_voltage s1;
                s2 = s1\<lparr>voltage_buffer := (voltage_buffer s1)[buffer_index s1 := ac_voltage],
                        buffer_index := (buffer_index s1 + 1) mod RMS_BUFFER_SIZE\<rparr>;
                s3 = (if buffer_index s2 = 0 then s2\<lparr>buffer_filled := True\<rparr> else s2)
            in (s3, voltage_sum_squared + ac_voltage * ac_voltage, valid_samples + 1))"

fun rms_loop :: "nat \<Rightarrow> fw \<times> real \<times> nat \<Rightarrow> fw \<times> real \<times> nat" where
  "rms_loop 0 c = c"
| "rms_loop (Suc k) c = rms_loop k (rms_step c)"

definition measure_rms_current :: "fw \<Rightarrow> real \<times> fw" where
  "measure_rms_current s =
     (case rms_loop RMS_BUFFER_SIZE (s, 0, 0) of (s1, voltage_sum_squared, valid_samples) \<Rightarrow>
        if valid_samples = 0 then (0.0, s1)
        else
          let voltage_rms = sqrt (voltage_sum_squared / real valid_samples);
              s2 = s1\<lparr>last_measured_vrms := voltage_rms\<rparr>;
              current_amps = voltage_rms * get_amps_per_volt s2;
              s3 = s2\<lparr>total_measurements := total_measurements s2 + 1\<rparr>;
              s4 = (if current_amps < stats_min_current s3
                    then s3\<lparr>stats_min_current := current_amps\<rparr> else s3);
              s5 = (if current_amps > stats_max_current s4
                    then s4\<lparr>stats_max_current := current_amps\<rparr> else s4);
              s6 = s5\<lparr>accumulated_current := accumulated_current s5 + current_amps,
                      measurement_count := measurement_count s5 + 1\<rparr>;
              s7 = (if auto_calibration_enabled s6
                    then process_current_for_auto_calibration current_amps s6 else s6);
              s8 = (if auto_detection_enabled s7 \<and> measurement_count s7 mod 50 = 0
                    then auto_detect_load_current s7 else s7)
          in (current_amps, s8))"

definition get_last_measured_vrms :: "fw \<Rightarrow> real" where
  "get_last_measured_vrms s = last_measured_vrms s"

definition reset_measurement_statistics :: "fw \<Rightarrow> fw" where
  "reset_measurement_statistics s =
     s\<lparr>total_measurements := 0, stats_min_current := 999999, stats_max_current := 0,
       accumulated_current := 0, measurement_count := 0\<rparr>"

definition get_instant_current_reading :: "fw \<Rightarrow> real \<times> fw" where
  "get_instant_current_reading s =
     (let (r, s1) = adc_oneshot_read s
      in case r of
           Some adc_value \<Rightarrow>
             let voltage = adc_to_voltage adc_value;
                 ac_voltage = \<bar>voltage - get_bias_voltage s1\<bar>
             in (ac_voltage * get_amps_per_volt s1, s1)
         | None \<Rightarrow> (0.0, s1))"

subsection \<open>The command interpreter of \<^verbatim>\<open>udp_receiver.c\<close>\<close>

text \<open>
  A command is the received text up to its terminating zero byte.
  \<^verbatim>\<open>strncmp(command, lit, n) == 0\<close> holds when the first \<open>n\<close> characters of the two
  strings agree. \<^verbatim>\<open>atof\<close> belongs to the C library and is a parameter.
\<close>

definition strncmp_eq :: "string \<Rightarrow> string \<Rightarrow> nat \<Rightarrow> bool" where
  "strncmp_eq command lit n \<longleftrightarrow> take n command = take n lit"

text \<open>
  The branches of \<^verbatim>\<open>process_udp_command\<close>, in the order of the source. The result is
  the new state and the response sent, or \<open>None\<close> for a branch whose handler lies
  outside the embedding: the relay pin, the restart, and the diagnostic texts.
\<close>

definition process_udp_command :: "(string \<Rightarrow> real) \<Rightarrow> string \<Rightarrow> fw \<Rightarrow> (fw \<times> response) option" where
  "process_udp_command atof command s =
     (if strncmp_eq command ''RELAY_ON'' 8 then None
      else if strncmp_eq command ''RELAY_OFF'' 9 then None
      else if strncmp_eq command ''RELAY_TOGGLE'' 12 then None
      else if strncmp_eq command ''AUTO_CAL_ON'' 11
      then Some (set_auto_calibration True s, (''AUTO_CAL_ON:SUCCESS'', []))
      else if strncmp_eq command ''AUTO_CAL_OFF'' 12
      then Some (set_auto_calibration False s, (''AUTO_CAL_OFF:SUCCESS'', []))
      else if strncmp_eq command ''AUTO_CAL_STATUS'' 15 then None
      else if strncmp_eq command ''AUTO_CAL_SENSITIVITY:'' 21
      then let sensitivity = atof (drop 21 command)
           in if sensitivity \<ge> 0.0 \<and> sensitivity \<le> 1.0
              then Some (set_auto_cal_sensitivity sensitivity s,
                         (''AUTO_CAL_SENSITIVITY:SUCCESS,VALUE=%.2f'', [F sensitivity]))
              else Some (s, (''AUTO_CAL_SENSITIVITY:ERROR,INVALID_RANGE'', []))
      else if strncmp_eq command ''AUTO_CAL_LEARNING_RATE:'' 23
      then let rate = atof (drop 23 command)
           in if rate \<ge> 0.0 \<and> rate \<le> 1.0
              then Some (set_learning_rate rate s, (''LEARNING_RATE:SUCCESS,VALUE=%.2f'', [F rate]))
              else Some (s, (''LEARNING_RATE:ERROR,INVALID_RANGE'', []))
      else if strncmp_eq command ''LIST_DEVICES'' 12 then None
      else if strncmp_eq command ''RECOGNIZE_CURRENT:'' 18
      then let current = atof (drop 18 command)
           in case recognize_device current of
                Some device \<Rightarrow>
                  Some (s, (''DEVICE_RECOGNIZED:NAME=%s,TYPICAL=%.2fA,RANGE=%.2f-%.2fA'',
                            [S (device_name device), F (typical_current device),
                             F (min_current device), F (max_current device)]))
              | None \<Rightarrow> Some (s, (''DEVICE_RECOGNIZED:NONE'', []))
      else if strncmp_eq command ''AUTO_RECOGNIZE'' 14
      then let current = get_detected_load_amps s
           in Some (auto_recognize_and_calibrate current s,
                    (''AUTO_RECOGNIZE:PROCESSED,CURRENT=%.3fA'', [F current]))
      else if strncmp_eq command ''LEARNING_STATS'' 14
      then Some (s, (''LEARNING_STATS:POINTS=%d,RATE=%.2f,MAX_POINTS=%d'',
                     [D (int (get_learning_point_count s)), F (get_learning_rate s),
                      D (int MAX_LEARNING_POINTS)]))
      else if strncmp_eq command ''RESET_LEARNING'' 14
      then Some (reset_learning_data s, (''RESET_LEARNING:SUCCESS'', []))
      else if strncmp_eq command ''APPLY_LEARNING'' 14
      then Some (apply_learned_calibration s, (''APPLY_LEARNING:SUCCESS'', []))
      else if strncmp_eq command ''ZERO_CAL'' 8
      then Some (perform_zero_calibration s)
      else if strncmp_eq command ''SCALE_CAL:'' 10
      then Some (perform_scale_calibration (atof (drop 10 command)) s)
      else if strncmp_eq command ''MANUAL_CAL:'' 11
      then let rest = drop 11 command
           in if CHR '','' \<in> set rest
              then let bias_voltage' = atof (takeWhile (\<lambda>c. c \<noteq> CHR '','') rest);
                       scale_factor = atof (tl (dropWhile (\<lambda>c. c \<noteq> CHR '','') rest));
                       s1 = set_bias_voltage bias_voltage' s;
                       s2 = set_amps_per_volt scale_factor s1
                   in Some (s2, (''MANUAL_CAL:SUCCESS,BIAS=%.4f,SCALE=%.2f'',
                                 [F bias_voltage', F scale_factor]))
              else Some (s, (''MANUAL_CAL:ERROR,INVALID_FORMAT'', []))
      else if strncmp_eq command ''RESET_CAL'' 9
      then Some (reset_calibration s)
      else if strncmp_eq command ''CAL_STATUS'' 10 then None
      else if strncmp_eq command ''AUTO_DETECT'' 11
      then let s1 = auto_detect_load_current s
           in Some (s1, (''AUTO_DETECT:SUCCESS,CURRENT=%.3fA'', [F (get_detected_load_amps s1)]))
      else if strncmp_eq command ''AUTO_DETECT_ON'' 14
      then Some (set_auto_detection True s, (''AUTO_DETECT_ON:SUCCESS'', []))
      else if strncmp_eq command ''AUTO_DETECT_OFF'' 15
      then Some (set_auto_detection False s, (''AUTO_DETECT_OFF:SUCCESS'', []))
      else if strncmp_eq command ''GET_CURRENT'' 11
      then let (current, s1) = get_instant_current_reading s
           in Some (s1, (''CURRENT:INSTANT=%.3fA,DETECTED=%.3fA,VRMS=%.6fV'',
                         [F current, F (get_detected_load_amps s1), F (get_last_measured_vrms s1)]))
      else if strncmp_eq command ''MEASUREMENT_STATS'' 17 then None
      else if strncmp_eq command ''RESET_STATS'' 11
      then Some (reset_auto_cal_statistics (reset_measurement_statistics s),
                 (''RESET_STATS:SUCCESS'', []))
      else if strncmp_eq command ''BUFFER_ANALYSIS'' 15 then None
      else if strncmp_eq command ''DEBUG_ADC'' 9 then None
      else if strncmp_eq command ''RECALIBRATE_BIAS'' 16
      then Some (perform_zero_calibration s)
      else if strncmp_eq command ''SCT_INFO'' 8 then None
      else if strncmp_eq command ''SYSTEM_STATUS'' 13 then None
      else if strncmp_eq command ''PING'' 4
      then Some (s, (''PONG:ESP32_READY,AUTO_CAL_ENABLED'', []))
      else if strncmp_eq command ''RESTART'' 7 then None
      else if strncmp_eq command ''GET_CONFIG'' 10 then None
      else if strncmp_eq command ''SET_BIAS:'' 9
      then let bias = atof (drop 9 command)
           in if bias \<ge> 0.1 \<and> bias \<le> 3.0
              then Some (set_bias_voltage bias s, (''SET_BIAS:SUCCESS,VALUE=%.4f'', [F bias]))
              else Some (s, (''SET_BIAS:ERROR,INVALID_RANGE'', []))
      else if strncmp_eq command ''SET_SCALE:'' 10
      then let scale = atof (drop 10 command)
           in if scale \<ge> 1.0 \<and> scale \<le> 1000.0
              then Some (set_amps_per_volt scale s, (''SET_SCALE:SUCCESS,VALUE=%.2f'', [F scale]))
              else Some (s, (''SET_SCALE:ERROR,INVALID_RANGE'', []))
      else if strncmp_eq command ''CALIBRATE:'' 10
      then let s1 = calibrate_with_known_load (atof (drop 10 command)) s
           in Some (s1, (''CALIBRATE:SUCCESS,SCALE=%.2f'', [F (get_amps_per_volt s1)]))
      else if strncmp_eq command ''CAL_KNOWN:'' 10
      then let s1 = calibrate_with_known_load (atof (drop 10 command)) s
           in Some (s1, (''CAL_KNOWN:SUCCESS,SCALE=%.2f'', [F (get_amps_per_volt s1)]))
      else if strncmp_eq command ''HELP'' 4 then None
      else Some (s, (''ERROR:UNKNOWN_COMMAND:%s'', [S command])))"

subsection \<open>Notions used to state the properties\<close>

text \<open>The results of the next \<open>k\<close> reads of the converter, and the values of the successful ones.\<close>

definition adc_window :: "fw \<Rightarrow> nat \<Rightarrow> int option list" where
  "adc_window s k = map (adc_in s) [adc_reads s..<adc_reads s + k]"

fun successful_reads :: "int option list \<Rightarrow> int list" where
  "successful_reads [] = []"
| "successful_reads (None # rs) = successful_reads rs"
| "successful_reads (Some a # rs) = a # successful_reads rs"

text \<open>
  The AC voltage magnitudes above 0.001 V among the 50 ticks that
  \<^verbatim>\<open>calibrate_with_known_load\<close> samples, and the voltages of the ticks that
  \<^verbatim>\<open>measure_rms_current\<close> reads successfully.
\<close>

definition known_load_voltages :: "fw \<Rightarrow> real list" where
  "known_load_voltages s =
     filter (\<lambda>ac. ac > 0.001)
       (map (\<lambda>a. \<bar>adc_to_voltage a - bias_voltage s\<bar>) (successful_reads (adc_window s 50)))"

definition rms_voltages :: "fw \<Rightarrow> real list" where
  "rms_voltages s = map adc_to_voltage (successful_reads (adc_window s RMS_BUFFER_SIZE))"

text \<open>
  The confidence as the specification words it, in exact arithmetic, to be compared with
  \<open>recognition_confidence\<close>.
\<close>

definition confidence_formula :: "device_profile \<Rightarrow> real \<Rightarrow> real \<Rightarrow> real" where
  "confidence_formula p v sensitivity =
     (1 - \<bar>v - typical_current p\<bar> / (max_current p - min_current p)) *
       confidence_boost p * sensitivity"

text \<open>The value that the next call of \<^verbatim>\<open>xTaskGetTickCount\<close> gives, in milliseconds.\<close>

definition now_ms :: "fw \<Rightarrow> uint32" where
  "now_ms s = tick_in s (tick_reads s)"

text \<open>
  A conversion table for \<^verbatim>\<open>atof\<close> on the texts of a test: a text outside the table
  converts to \<open>0\<close>, as a text that holds no number does.
\<close>

definition atof_table :: "(string \<times> real) list \<Rightarrow> string \<Rightarrow> real" where
  "atof_table t str = (case map_of t str of Some v \<Rightarrow> v | None \<Rightarrow> 0)"

subsection \<open>States of the examples\<close>

text \<open>
  The initial state in front of a converter whose first \<open>n\<close> reads succeed at full scale
  (3.3 V, hence 1.65 V above the initial bias) and whose later reads fail.
\<close>

definition sampled_state :: "nat \<Rightarrow> fw" where
  "sampled_state n = initial_state (\<lambda>i. if i < n then Some 4095 else None) (\<lambda>_. 0)"

text \<open>
  The initial state after three manual calibrations at time 0, at 5 A, 10 A and 2.5 A
  with 0.02 V, 0.04 V and 0.01 V measured, and with the learning rate set to 1.
\<close>

definition learned_state :: fw where
  "learned_state =
     (sampled_state 0)
       \<lparr>learning_rate := 1,
        learning_points := (replicate MAX_LEARNING_POINTS zero_point)
          [0 := \<lparr>expected_current = 5, measured_voltage = 0.02, timestamp = 0,
                  confidence = 1.0, auto_generated = False\<rparr>,
           1 := \<lparr>expected_current = 10, measured_voltage = 0.04, timestamp = 0,
                  confidence = 1.0, auto_generated = False\<rparr>,
           2 := \<lparr>expected_current = 2.5, measured_voltage = 0.01, timestamp = 0,
                  confidence = 1.0, auto_generated = False\<rparr>],
        learning_point_count := 3\<rparr>"

text \<open>
  The initial state one hour after the start, after a manual override of the sensitivity
  to 0.88, with nine successful recognitions and one failed.
\<close>

definition eager_state :: fw where
  "eager_state =
     (set_auto_cal_sensitivity 0.88 (initial_state (\<lambda>_. None) (\<lambda>_. 3600000)))
       \<lparr>successful_recognitions := 9, failed_recognitions := 1\<rparr>"

text \<open>The same with a sensitivity of 0.31, one successful recognition and nine failed.\<close>

definition wary_state :: fw where
  "wary_state =
     (set_auto_cal_sensitivity 0.31 (initial_state (\<lambda>_. None) (\<lambda>_. 3600000)))
       \<lparr>successful_recognitions := 1, failed_recognitions := 9\<rparr>"

text \<open>
  A state in the middle of a stable period: the window holds 3.0 fifty times, the stable
  period began at 100 s, no scale calibration has happened yet, and the clock shows
  \<open>t\<close> milliseconds.
\<close>

definition holding_state :: "uint32 \<Rightarrow> fw" where
  "holding_state t =
     (initial_state (\<lambda>_. None) (\<lambda>_. t))
       \<lparr>current_history := replicate HISTORY_SIZE 3, history_full := True,
        stable_load_start := 100000, stable_load_value := 3, in_stable_period := True\<rparr>"

text \<open>
  The initial state after the sensitivity has been set to 0.75 (one raise of the default
  0.7 by 0.05, or a manual override), in front of a converter whose reads succeed.
\<close>

definition raised_state :: fw where
  "raised_state = set_auto_cal_sensitivity 0.75 (sampled_state 50)"

section \<open>Properties\<close>

subsection \<open>Evaluating the binary32 rounding\<close>

lemma f32_exponent_numeral:
  "f32_exponent (numeral n) a =
     (if a \<ge> 2 then 1 + f32_exponent (pred_numeral n) (a / 2)
      else if a < 1 then f32_exponent (pred_numeral n) (a * 2) - 1
      else 0)"
  by (simp add: numeral_eq_Suc)

lemmas f32_eval = f32_def f32_exponent_numeral pow2_def round_half_even_def Let_def
  f32_sub_def f32_mul_def f32_div_def

lemma f32_threshold: "f32 DEVICE_RECOGNITION_CONFIDENCE = 15099494 / 16777216"
  by (simp add: f32_eval)

subsection \<open>Device recognition scans for the first match\<close>

lemma recognize_from_step:
  "recognize_from i (Suc k) x =
     (if min_current (known_devices ! i) \<le> x \<and> x \<le> max_current (known_devices ! i)
      then Some i else recognize_from (Suc i) k x)"
  by simp

lemma recognize_from_None:
  "recognize_from i k x = None \<longleftrightarrow>
     (\<forall>j. i \<le> j \<and> j < i + k \<longrightarrow>
        \<not> (min_current (known_devices ! j) \<le> x \<and> x \<le> max_current (known_devices ! j)))"
proof -
  define P where "P j \<longleftrightarrow> min_current (known_devices ! j) \<le> x \<and> x \<le> max_current (known_devices ! j)" for j
  have step: "recognize_from i (Suc k) x = (if P i then Some i else recognize_from (Suc i) k x)" for i k
    by (simp add: P_def)
  have "recognize_from i k x = None \<longleftrightarrow> (\<forall>j. i \<le> j \<and> j < i + k \<longrightarrow> \<not> P j)"
  proof (induction k arbitrary: i)
    case 0
    show ?case by auto
  next
    case (Suc k)
    show ?case
    proof (cases "P i")
      case True
      then show ?thesis unfolding step by auto
    next
      case False
      have "(\<forall>j. Suc i \<le> j \<and> j < Suc i + k \<longrightarrow> \<not> P j) \<longleftrightarrow> (\<forall>j. i \<le> j \<and> j < i + Suc k \<longrightarrow> \<not> P j)"
        using False by (auto simp: Suc_le_eq dest: le_neq_implies_less)
      with False Suc.IH [of "Suc i"] show ?thesis unfolding step by simp
    qed
  qed
  then show ?thesis by (simp only: P_def)
qed

lemma recognize_from_Some:
  "recognize_from i k x = Some m \<longleftrightarrow>
     i \<le> m \<and> m < i + k \<and>
     (min_current (known_devices ! m) \<le> x \<and> x \<le> max_current (known_devices ! m)) \<and>
     (\<forall>j. i \<le> j \<and> j < m \<longrightarrow>
        \<not> (min_current (known_devices ! j) \<le> x \<and> x \<le> max_current (known_devices ! j)))"
proof -
  define P where "P j \<longleftrightarrow> min_current (known_devices ! j) \<le> x \<and> x \<le> max_current (known_devices ! j)" for j
  have step: "recognize_from i (Suc k) x = (if P i then Some i else recognize_from (Suc i) k x)" for i k
    by (simp add: P_def)
  have "recognize_from i k x = Some m \<longleftrightarrow>
      i \<le> m \<and> m < i + k \<and> P m \<and> (\<forall>j. i \<le> j \<and> j < m \<longrightarrow> \<not> P j)"
  proof (induction k arbitrary: i)
    case 0
    show ?case by auto
  next
    case (Suc k)
    show ?case
    proof (cases "P i")
      case True
      have "i \<le> m \<and> m < i + Suc k \<and> P m \<and> (\<forall>j. i \<le> j \<and> j < m \<longrightarrow> \<not> P j) \<longleftrightarrow> m = i"
        using True by (auto simp: not_less)
      with True show ?thesis unfolding step by auto
    next
      case False
      have "Suc i \<le> m \<and> m < Suc i + k \<and> P m \<and> (\<forall>j. Suc i \<le> j \<and> j < m \<longrightarrow> \<not> P j)
        \<longleftrightarrow> i \<le> m \<and> m < i + Suc k \<and> P m \<and> (\<forall>j. i \<le> j \<and> j < m \<longrightarrow> \<not> P j)"
        using False by (auto simp: Suc_le_eq dest: le_neq_implies_less)
      with False Suc.IH [of "Suc i"] show ?thesis unfolding step by simp
    qed
  qed
  then show ?thesis by (simp only: P_def)
qed

lemma num_known_devices_10: "num_known_devices = 10"
  by (simp add: num_known_devices_def known_devices_def)

text \<open>
  Claim C6. \<^verbatim>\<open>recognize_device\<close> scans the ten entries of the catalog in the order of
  their declaration: it returns the first entry whose closed range
  \<open>[min_current, max_current]\<close> contains the query, and no device when no range contains
  it. For the query 5.5 it returns the entry of the hair dryer at its low setting, whose
  match quality is then 0.75.
\<close>

theorem recognize_device_first_match:
  "num_known_devices = 10 \<and>
   (recognize_device x = None \<longleftrightarrow>
      (\<forall>i<num_known_devices.
         \<not> (min_current (known_devices ! i) \<le> x \<and> x \<le> max_current (known_devices ! i)))) \<and>
   (recognize_device x = Some p \<longleftrightarrow>
      (\<exists>i<num_known_devices. p = known_devices ! i \<and>
         min_current (known_devices ! i) \<le> x \<and> x \<le> max_current (known_devices ! i) \<and>
         (\<forall>j<i. \<not> (min_current (known_devices ! j) \<le> x \<and> x \<le> max_current (known_devices ! j))))) \<and>
   recognize_device 5.5 =
     Some \<lparr>min_current = 4.0, max_current = 6.0, typical_current = 5.0,
           device_name = ''Hair Dryer Low Setting'', confidence_boost = 1.5\<rparr> \<and>
   match_quality \<lparr>min_current = 4.0, max_current = 6.0, typical_current = 5.0,
                  device_name = ''Hair Dryer Low Setting'', confidence_boost = 1.5\<rparr> 5.5 = 0.75"
proof (intro conjI)
  show "num_known_devices = 10" by (rule num_known_devices_10)
  show "recognize_device x = None \<longleftrightarrow>
      (\<forall>i<num_known_devices.
         \<not> (min_current (known_devices ! i) \<le> x \<and> x \<le> max_current (known_devices ! i)))"
    by (simp add: recognize_device_def recognize_from_None)
  show "recognize_device x = Some p \<longleftrightarrow>
      (\<exists>i<num_known_devices. p = known_devices ! i \<and>
         min_current (known_devices ! i) \<le> x \<and> x \<le> max_current (known_devices ! i) \<and>
         (\<forall>j<i. \<not> (min_current (known_devices ! j) \<le> x \<and> x \<le> max_current (known_devices ! j))))"
    unfolding recognize_device_def map_option_eq_Some recognize_from_Some by auto
  show "recognize_device 5.5 =
     Some \<lparr>min_current = 4.0, max_current = 6.0, typical_current = 5.0,
           device_name = ''Hair Dryer Low Setting'', confidence_boost = 1.5\<rparr>"
    by (simp add: recognize_device_def num_known_devices_10 eval_nat_numeral known_devices_def)
  show "match_quality \<lparr>min_current = 4.0, max_current = 6.0, typical_current = 5.0,
                  device_name = ''Hair Dryer Low Setting'', confidence_boost = 1.5\<rparr> 5.5 = 0.75"
    by (simp add: match_quality_def f32_eval)
qed

theorem recognize_device_first_match_witness:
  "recognize_device 9 = Some (known_devices ! 4) \<and>
   device_name (known_devices ! 4) = ''Space Heater'' \<and>
   (min_current (known_devices ! 6) \<le> 9 \<and> 9 \<le> max_current (known_devices ! 6)) \<and>
   recognize_device 20 = None"
proof -
  have "\<exists>i<num_known_devices. known_devices ! 4 = known_devices ! i \<and>
         min_current (known_devices ! i) \<le> 9 \<and> 9 \<le> max_current (known_devices ! i) \<and>
         (\<forall>j<i. \<not> (min_current (known_devices ! j) \<le> 9 \<and> 9 \<le> max_current (known_devices ! j)))"
    by (rule exI [of _ 4])
      (simp add: num_known_devices_10 known_devices_def eval_nat_numeral All_less_Suc)
  moreover have "\<forall>i<num_known_devices.
         \<not> (min_current (known_devices ! i) \<le> 20 \<and> 20 \<le> max_current (known_devices ! i))"
    by (simp add: num_known_devices_10 known_devices_def eval_nat_numeral All_less_Suc)
  moreover have "device_name (known_devices ! 4) = ''Space Heater''"
    "min_current (known_devices ! 6) \<le> 9 \<and> 9 \<le> max_current (known_devices ! 6)"
    by (simp_all add: known_devices_def)
  ultimately show ?thesis
    using recognize_device_first_match [of 9 "known_devices ! 4"]
      recognize_device_first_match [of 20]
    by simp
qed

subsection \<open>Calibration against a known load\<close>

lemma adc_window_Suc:
  "adc_window s (Suc k) = adc_in s (adc_reads s) # adc_window (s\<lparr>adc_reads := Suc (adc_reads s)\<rparr>) k"
  by (simp add: adc_window_def upt_conv_Cons del: upt_Suc)

lemma known_load_voltages_frame:
  "known_load_loop k (s, vsum, n) =
     (s\<lparr>adc_reads := adc_reads s + k\<rparr>,
      vsum + sum_list (filter (\<lambda>ac. ac > 0.001)
        (map (\<lambda>a. \<bar>adc_to_voltage a - bias_voltage s\<bar>) (successful_reads (adc_window s k)))),
      n + length (filter (\<lambda>ac. ac > 0.001)
        (map (\<lambda>a. \<bar>adc_to_voltage a - bias_voltage s\<bar>) (successful_reads (adc_window s k)))))"
proof (induction k arbitrary: s vsum n)
  case 0
  show ?case by (simp add: adc_window_def)
next
  case (Suc k)
  show ?case
  proof (cases "adc_in s (adc_reads s)")
    case None
    then show ?thesis
      by (simp add: known_load_step_def adc_oneshot_read_def Suc.IH adc_window_Suc)
  next
    case (Some a)
    then show ?thesis
      by (simp add: known_load_step_def adc_oneshot_read_def Suc.IH adc_window_Suc Let_def)
  qed
qed

lemma known_load_loop_50:
  "known_load_loop 50 (s, 0, 0) =
     (s\<lparr>adc_reads := adc_reads s + 50\<rparr>, sum_list (known_load_voltages s), length (known_load_voltages s))"
  by (simp add: known_load_voltages_frame known_load_voltages_def)

lemma learn_from_calibration_fields:
  "learn_from_calibration e m manual s =
     s\<lparr>tick_reads := Suc (tick_reads s),
       learning_points := (learning_points s)
          [(if learning_point_count s < MAX_LEARNING_POINTS then learning_point_count s
            else learning_point_index s) :=
             \<lparr>expected_current = e, measured_voltage = m, timestamp = now_ms s,
              confidence = (if manual then 1.0 else 0.8), auto_generated = \<not> manual\<rparr>],
       learning_point_count := (if learning_point_count s < MAX_LEARNING_POINTS
          then learning_point_count s + 1 else learning_point_count s),
       learning_point_index := (if learning_point_count s < MAX_LEARNING_POINTS
          then learning_point_index s else (learning_point_index s + 1) mod MAX_LEARNING_POINTS)\<rparr>"
  by (simp add: learn_from_calibration_def tick_count_ms_def now_ms_def)

lemma calibrate_invalid:
  "K \<le> 0 \<or> K > MAX_CURRENT_AMPS \<Longrightarrow> calibrate_with_known_load K s = s"
  by (auto simp: calibrate_with_known_load_def)

lemma calibrate_insufficient:
  "0 < K \<Longrightarrow> K \<le> MAX_CURRENT_AMPS \<Longrightarrow> length (known_load_voltages s) \<le> 10 \<Longrightarrow>
   calibrate_with_known_load K s = s\<lparr>adc_reads := adc_reads s + 50\<rparr>"
  by (simp add: calibrate_with_known_load_def known_load_loop_50)

lemma calibrate_success:
  assumes "0 < K" "K \<le> MAX_CURRENT_AMPS" "length (known_load_voltages s) > 10"
  shows "calibrate_with_known_load K s =
     (let avg_voltage = sum_list (known_load_voltages s) / real (length (known_load_voltages s));
          s1 = s\<lparr>adc_reads := adc_reads s + 50\<rparr>;
          s2 = (if mutex_busy s then s1 else s1\<lparr>amps_per_volt := K / avg_voltage\<rparr>);
          s3 = learn_from_calibration K avg_voltage True s2
      in s3\<lparr>tick_reads := Suc (tick_reads s3), last_auto_cal_time := now_ms s3\<rparr>)"
  using assms
  by (simp add: calibrate_with_known_load_def known_load_loop_50 Let_def tick_count_ms_def now_ms_def)

lemma sampled_state_voltages:
  "known_load_voltages (sampled_state 3) = [1.65, 1.65, 1.65]"
  "known_load_voltages (sampled_state 10) = replicate 10 1.65"
  "known_load_voltages (sampled_state 11) = replicate 11 1.65"
  by (simp_all add: known_load_voltages_def adc_window_def sampled_state_def initial_state_def
      upt_rec adc_to_voltage_def eval_nat_numeral)

text \<open>
  Claim C7, amended. \<^verbatim>\<open>calibrate_with_known_load K\<close> returns at once, the state
  unchanged, when \<open>K \<le> 0\<close> or \<open>K > 100\<close>. Otherwise it samples 50 ticks, and when 10 or
  fewer of them yield an AC voltage magnitude above 0.001 V nothing but the count of
  reads changes: bias, scale and learning points stay. When more than 10 do, and the
  mutex is free, the scale becomes \<open>K\<close> divided by the average of those magnitudes, the
  bias stays, and a manual learning point of confidence 1.0 is recorded.
\<close>

theorem calibrate_with_known_load_cases:
  "(K \<le> 0 \<or> K > MAX_CURRENT_AMPS \<longrightarrow> calibrate_with_known_load K s = s) \<and>
   (0 < K \<and> K \<le> MAX_CURRENT_AMPS \<and> length (known_load_voltages s) \<le> 10 \<longrightarrow>
      calibrate_with_known_load K s = s\<lparr>adc_reads := adc_reads s + 50\<rparr>) \<and>
   (0 < K \<and> K \<le> MAX_CURRENT_AMPS \<and> length (known_load_voltages s) > 10 \<and> \<not> mutex_busy s \<longrightarrow>
      (let avg_voltage = sum_list (known_load_voltages s) / real (length (known_load_voltages s));
           slot = (if learning_point_count s < MAX_LEARNING_POINTS
                   then learning_point_count s else learning_point_index s);
           r = calibrate_with_known_load K s
       in amps_per_volt r = K / avg_voltage \<and>
          bias_voltage r = bias_voltage s \<and>
          learning_points r = (learning_points s)[slot :=
             \<lparr>expected_current = K, measured_voltage = avg_voltage, timestamp = now_ms s,
              confidence = 1.0, auto_generated = False\<rparr>] \<and>
          learning_point_count r = (if learning_point_count s < MAX_LEARNING_POINTS
             then learning_point_count s + 1 else learning_point_count s)))"
proof (intro conjI impI)
  assume "K \<le> 0 \<or> K > MAX_CURRENT_AMPS"
  then show "calibrate_with_known_load K s = s" by (rule calibrate_invalid)
next
  assume "0 < K \<and> K \<le> MAX_CURRENT_AMPS \<and> length (known_load_voltages s) \<le> 10"
  then show "calibrate_with_known_load K s = s\<lparr>adc_reads := adc_reads s + 50\<rparr>"
    by (simp add: calibrate_insufficient)
next
  assume a: "0 < K \<and> K \<le> MAX_CURRENT_AMPS \<and> length (known_load_voltages s) > 10 \<and> \<not> mutex_busy s"
  then have "0 < K" "K \<le> MAX_CURRENT_AMPS" "length (known_load_voltages s) > 10" by simp_all
  from calibrate_success [OF this] a
  show "let avg_voltage = sum_list (known_load_voltages s) / real (length (known_load_voltages s));
           slot = (if learning_point_count s < MAX_LEARNING_POINTS
                   then learning_point_count s else learning_point_index s);
           r = calibrate_with_known_load K s
       in amps_per_volt r = K / avg_voltage \<and>
          bias_voltage r = bias_voltage s \<and>
          learning_points r = (learning_points s)[slot :=
             \<lparr>expected_current = K, measured_voltage = avg_voltage, timestamp = now_ms s,
              confidence = 1.0, auto_generated = False\<rparr>] \<and>
          learning_point_count r = (if learning_point_count s < MAX_LEARNING_POINTS
             then learning_point_count s + 1 else learning_point_count s)"
    by (simp add: Let_def learn_from_calibration_fields now_ms_def)
qed

theorem calibrate_with_known_load_cases_witness:
  "calibrate_with_known_load 0 (sampled_state 11) = sampled_state 11 \<and>
   calibrate_with_known_load 5 (sampled_state 3) = (sampled_state 3)\<lparr>adc_reads := 50\<rparr> \<and>
   amps_per_volt (calibrate_with_known_load 5 (sampled_state 11)) = 100 / 33 \<and>
   bias_voltage (calibrate_with_known_load 5 (sampled_state 11)) = 1.65 \<and>
   learning_points (calibrate_with_known_load 5 (sampled_state 11)) ! 0 =
     \<lparr>expected_current = 5, measured_voltage = 1.65, timestamp = 0,
      confidence = 1.0, auto_generated = False\<rparr> \<and>
   learning_point_count (calibrate_with_known_load 5 (sampled_state 11)) = 1"
proof -
  have s: "adc_reads (sampled_state 3) = 0" "\<not> mutex_busy (sampled_state 11)"
    "learning_point_count (sampled_state 11) = 0" "now_ms (sampled_state 11) = 0"
    "bias_voltage (sampled_state 11) = 1.65"
    "learning_points (sampled_state 11) = replicate 50 zero_point"
    by (simp_all add: sampled_state_def initial_state_def now_ms_def)
  show ?thesis
    using calibrate_with_known_load_cases [of 0 "sampled_state 11"]
      calibrate_with_known_load_cases [of 5 "sampled_state 3"]
      calibrate_with_known_load_cases [of 5 "sampled_state 11"]
    by (simp add: sampled_state_voltages s Let_def sum_list_replicate)
qed

text \<open>
  With exactly 10 valid ticks, which are not fewer than 10, and the valid load 5 A, the
  scale keeps its initial value and no learning point is recorded.
\<close>

theorem calibrate_ten_valid_samples_counterexample:
  "(0::real) < 5 \<and> (5::real) \<le> MAX_CURRENT_AMPS \<and>
   \<not> length (known_load_voltages (sampled_state 10)) < 10 \<and>
   amps_per_volt (calibrate_with_known_load 5 (sampled_state 10)) = amps_per_volt (sampled_state 10) \<and>
   amps_per_volt (calibrate_with_known_load 5 (sampled_state 10)) \<noteq>
     5 / (sum_list (known_load_voltages (sampled_state 10)) /
          real (length (known_load_voltages (sampled_state 10)))) \<and>
   learning_point_count (calibrate_with_known_load 5 (sampled_state 10)) = 0"
  by (simp add: calibrate_insufficient sampled_state_voltages sum_list_replicate)
    (simp add: sampled_state_def initial_state_def)

subsection \<open>Recognition confidence gates the calibration\<close>

lemma calibrate_shape:
  "calibrate_with_known_load K s =
     s\<lparr>adc_reads := adc_reads (calibrate_with_known_load K s),
       tick_reads := tick_reads (calibrate_with_known_load K s),
       amps_per_volt := amps_per_volt (calibrate_with_known_load K s),
       learning_points := learning_points (calibrate_with_known_load K s),
       learning_point_count := learning_point_count (calibrate_with_known_load K s),
       learning_point_index := learning_point_index (calibrate_with_known_load K s),
       last_auto_cal_time := last_auto_cal_time (calibrate_with_known_load K s)\<rparr>"
proof -
  consider "K \<le> 0 \<or> K > MAX_CURRENT_AMPS"
    | "0 < K" "K \<le> MAX_CURRENT_AMPS" "length (known_load_voltages s) \<le> 10"
    | "0 < K" "K \<le> MAX_CURRENT_AMPS" "length (known_load_voltages s) > 10"
    by linarith
  then show ?thesis
  proof cases
    case 1
    then show ?thesis by (simp add: calibrate_invalid)
  next
    case 2
    then show ?thesis by (simp add: calibrate_insufficient)
  next
    case 3
    then show ?thesis
      by (simp add: calibrate_success Let_def learn_from_calibration_fields)
  qed
qed

lemma calibrate_adc_reads:
  "0 < K \<Longrightarrow> K \<le> MAX_CURRENT_AMPS \<Longrightarrow>
   adc_reads (calibrate_with_known_load K s) = adc_reads s + 50"
  by (cases "length (known_load_voltages s) \<le> 10")
    (simp_all add: calibrate_insufficient calibrate_success Let_def learn_from_calibration_fields)

lemma calibrate_recognition_counters:
  "successful_recognitions (calibrate_with_known_load K s) = successful_recognitions s"
  "failed_recognitions (calibrate_with_known_load K s) = failed_recognitions s"
  by (subst calibrate_shape, simp)+

lemma recognize_device_member:
  "recognize_device v = Some p \<Longrightarrow> p \<in> set known_devices"
  by (auto simp: recognize_device_def recognize_from_Some num_known_devices_def)

lemma known_devices_typical:
  "p \<in> set known_devices \<Longrightarrow> 0 < typical_current p \<and> typical_current p \<le> MAX_CURRENT_AMPS"
  by (auto simp: known_devices_def)

lemma hair_dryer_5: "recognize_device 5 =
     Some \<lparr>min_current = 4.0, max_current = 6.0, typical_current = 5.0,
           device_name = ''Hair Dryer Low Setting'', confidence_boost = 1.5\<rparr>"
    by (simp add: recognize_device_def num_known_devices_10 eval_nat_numeral known_devices_def)

lemma hair_dryer_55: "recognize_device 5.5 =
     Some \<lparr>min_current = 4.0, max_current = 6.0, typical_current = 5.0,
           device_name = ''Hair Dryer Low Setting'', confidence_boost = 1.5\<rparr>"
    by (simp add: recognize_device_def num_known_devices_10 eval_nat_numeral known_devices_def)

lemma bulb_1: "recognize_device 1 =
     Some \<lparr>min_current = 0.8, max_current = 1.2, typical_current = 1.0,
           device_name = ''100W Incandescent Bulb'', confidence_boost = 1.2\<rparr>"
  by (simp add: recognize_device_def num_known_devices_10 eval_nat_numeral known_devices_def)

lemma hair_dryer_confidence:
  "recognition_confidence
     \<lparr>min_current = 4.0, max_current = 6.0, typical_current = 5.0,
      device_name = ''Hair Dryer Low Setting'', confidence_boost = 1.5\<rparr> 5.0 0.7 =
     4404019 / 4194304"
  "recognition_confidence
     \<lparr>min_current = 4.0, max_current = 6.0, typical_current = 5.0,
      device_name = ''Hair Dryer Low Setting'', confidence_boost = 1.5\<rparr> 5.5 0.7 =
     13212057 / 16777216"
  by (simp_all add: recognition_confidence_def match_quality_def f32_eval)

lemma bulb_confidence:
  "recognition_confidence
     \<lparr>min_current = 0.8, max_current = 1.2, typical_current = 1.0,
      device_name = ''100W Incandescent Bulb'', confidence_boost = 1.2\<rparr> 1 0.75 =
     15099495 / 16777216"
  by (simp add: recognition_confidence_def match_quality_def f32_eval)

lemma hair_dryer_confidence_at_0_6:
  "recognition_confidence
     \<lparr>min_current = 4.0, max_current = 6.0, typical_current = 5.0,
      device_name = ''Hair Dryer Low Setting'', confidence_boost = 1.5\<rparr> 5.0 0.6 =
     15099495 / 16777216"
  by (simp add: recognition_confidence_def match_quality_def f32_eval)

text \<open>
  Claim C2, amended. When the measured value matches the profile \<open>p\<close>, the confidence is
  the binary32 value of \<open>(1 - |v - typical| / (max - min)) * confidence_boost * sensitivity\<close>,
  every operation rounded to the nearest \<^verbatim>\<open>float\<close>. When it exceeds the
  \<^verbatim>\<open>float\<close> 0.9, \<^verbatim>\<open>calibrate_with_known_load\<close> runs on the typical current (it
  samples its 50 ticks), the success counter goes up by one and a learning point is added;
  the failure counter stays. Otherwise only the failure counter goes up by one. A value
  that matches no profile leaves the state as it is. With sensitivity 0.7 the hair dryer
  profile (boost 1.5) gives 4404019 / 4194304 at 5.0, within \<open>10\<^sup>-\<^sup>7\<close> of 1.05 and above
  the threshold, and 13212057 / 16777216 at 5.5, within \<open>10\<^sup>-\<^sup>7\<close> of 0.7875 and not above
  it.
\<close>

theorem auto_recognize_and_calibrate_gating:
  "(recognize_device v = None \<longrightarrow> auto_recognize_and_calibrate v s = s) \<and>
   (recognize_device v = Some p \<longrightarrow>
      match_quality p v =
        f32 (1 - f32 (\<bar>f32 (f32 v - f32 (typical_current p))\<bar> /
                      f32 (f32 (max_current p) - f32 (min_current p)))) \<and>
      recognition_confidence p v (auto_cal_sensitivity s) =
        f32 (f32 (match_quality p v * f32 (confidence_boost p)) * f32 (auto_cal_sensitivity s)) \<and>
      (recognition_confidence p v (auto_cal_sensitivity s) > f32 DEVICE_RECOGNITION_CONFIDENCE \<longrightarrow>
         auto_recognize_and_calibrate v s =
           (let s1 = calibrate_with_known_load (typical_current p) s;
                s2 = s1\<lparr>successful_recognitions := successful_recognitions s + 1\<rparr>
            in learn_from_calibration (typical_current p) (v / get_amps_per_volt s2) False s2) \<and>
         adc_reads (auto_recognize_and_calibrate v s) = adc_reads s + 50 \<and>
         successful_recognitions (auto_recognize_and_calibrate v s) = successful_recognitions s + 1 \<and>
         failed_recognitions (auto_recognize_and_calibrate v s) = failed_recognitions s) \<and>
      (\<not> recognition_confidence p v (auto_cal_sensitivity s) > f32 DEVICE_RECOGNITION_CONFIDENCE \<longrightarrow>
         auto_recognize_and_calibrate v s =
           s\<lparr>failed_recognitions := failed_recognitions s + 1\<rparr>)) \<and>
   (let hair = \<lparr>min_current = 4.0, max_current = 6.0, typical_current = 5.0,
                  device_name = ''Hair Dryer Low Setting'', confidence_boost = 1.5\<rparr>
    in recognize_device 5.0 = Some hair \<and> recognize_device 5.5 = Some hair \<and>
       recognition_confidence hair 5.0 0.7 = 4404019 / 4194304 \<and>
       \<bar>recognition_confidence hair 5.0 0.7 - 1.05\<bar> < 1 / 10 ^ 7 \<and>
       recognition_confidence hair 5.0 0.7 > f32 DEVICE_RECOGNITION_CONFIDENCE \<and>
       recognition_confidence hair 5.5 0.7 = 13212057 / 16777216 \<and>
       \<bar>recognition_confidence hair 5.5 0.7 - 0.7875\<bar> < 1 / 10 ^ 7 \<and>
       \<not> recognition_confidence hair 5.5 0.7 > f32 DEVICE_RECOGNITION_CONFIDENCE)"
proof (intro conjI impI)
  show "auto_recognize_and_calibrate v s = s" if "recognize_device v = None"
    using that by (simp add: auto_recognize_and_calibrate_def)
  show "match_quality p v =
        f32 (1 - f32 (\<bar>f32 (f32 v - f32 (typical_current p))\<bar> /
                      f32 (f32 (max_current p) - f32 (min_current p))))"
    by (simp add: match_quality_def f32_sub_def f32_div_def)
  show "recognition_confidence p v (auto_cal_sensitivity s) =
        f32 (f32 (match_quality p v * f32 (confidence_boost p)) * f32 (auto_cal_sensitivity s))"
    by (simp add: recognition_confidence_def f32_mul_def)
  show "auto_recognize_and_calibrate v s = s\<lparr>failed_recognitions := failed_recognitions s + 1\<rparr>"
    if "recognize_device v = Some p"
      "\<not> recognition_confidence p v (auto_cal_sensitivity s) > f32 DEVICE_RECOGNITION_CONFIDENCE"
    using that by (simp add: auto_recognize_and_calibrate_def)
  show "let hair = \<lparr>min_current = 4.0, max_current = 6.0, typical_current = 5.0,
                  device_name = ''Hair Dryer Low Setting'', confidence_boost = 1.5\<rparr>
    in recognize_device 5.0 = Some hair \<and> recognize_device 5.5 = Some hair \<and>
       recognition_confidence hair 5.0 0.7 = 4404019 / 4194304 \<and>
       \<bar>recognition_confidence hair 5.0 0.7 - 1.05\<bar> < 1 / 10 ^ 7 \<and>
       recognition_confidence hair 5.0 0.7 > f32 DEVICE_RECOGNITION_CONFIDENCE \<and>
       recognition_confidence hair 5.5 0.7 = 13212057 / 16777216 \<and>
       \<bar>recognition_confidence hair 5.5 0.7 - 0.7875\<bar> < 1 / 10 ^ 7 \<and>
       \<not> recognition_confidence hair 5.5 0.7 > f32 DEVICE_RECOGNITION_CONFIDENCE"
    unfolding Let_def hair_dryer_confidence f32_threshold
    using hair_dryer_5 hair_dryer_55 by simp
next
  assume p: "recognize_device v = Some p"
    and c: "recognition_confidence p v (auto_cal_sensitivity s) > f32 DEVICE_RECOGNITION_CONFIDENCE"
  show eq: "auto_recognize_and_calibrate v s =
           (let s1 = calibrate_with_known_load (typical_current p) s;
                s2 = s1\<lparr>successful_recognitions := successful_recognitions s + 1\<rparr>
            in learn_from_calibration (typical_current p) (v / get_amps_per_volt s2) False s2)"
    using p c by (simp add: auto_recognize_and_calibrate_def Let_def calibrate_recognition_counters)
  have t: "0 < typical_current p" "typical_current p \<le> MAX_CURRENT_AMPS"
    using known_devices_typical [OF recognize_device_member [OF p]] by simp_all
  show "adc_reads (auto_recognize_and_calibrate v s) = adc_reads s + 50"
    unfolding eq by (simp add: Let_def learn_from_calibration_fields calibrate_adc_reads [OF t])
  show "successful_recognitions (auto_recognize_and_calibrate v s) = successful_recognitions s + 1"
    unfolding eq by (simp add: Let_def learn_from_calibration_fields)
  show "failed_recognitions (auto_recognize_and_calibrate v s) = failed_recognitions s"
    unfolding eq by (simp add: Let_def learn_from_calibration_fields calibrate_recognition_counters)
qed

theorem auto_recognize_and_calibrate_gating_witness:
  "auto_recognize_and_calibrate 20 (sampled_state 11) = sampled_state 11 \<and>
   auto_cal_sensitivity (sampled_state 11) = 0.7 \<and>
   auto_recognize_and_calibrate 5.5 (sampled_state 11) = (sampled_state 11)\<lparr>failed_recognitions := 1\<rparr> \<and>
   adc_reads (auto_recognize_and_calibrate 5 (sampled_state 11)) = 50 \<and>
   successful_recognitions (auto_recognize_and_calibrate 5 (sampled_state 11)) = 1 \<and>
   failed_recognitions (auto_recognize_and_calibrate 5 (sampled_state 11)) = 0"
proof -
  let ?hair = "\<lparr>min_current = 4.0, max_current = 6.0, typical_current = 5.0,
           device_name = ''Hair Dryer Low Setting'', confidence_boost = 1.5\<rparr>"
  let ?s = "sampled_state 11"
  have n: "recognize_device 20 = None"
    by (simp add: recognize_device_def num_known_devices_10 eval_nat_numeral known_devices_def)
  have s: "auto_cal_sensitivity ?s = 0.7" "adc_reads ?s = 0"
    "successful_recognitions ?s = 0" "failed_recognitions ?s = 0"
    by (simp_all add: sampled_state_def initial_state_def)
  have lo: "\<not> recognition_confidence ?hair 5.5 (auto_cal_sensitivity ?s)
      > f32 DEVICE_RECOGNITION_CONFIDENCE"
    and hi: "recognition_confidence ?hair 5.0 (auto_cal_sensitivity ?s)
      > f32 DEVICE_RECOGNITION_CONFIDENCE"
    unfolding s hair_dryer_confidence f32_threshold by simp_all
  note g55 = auto_recognize_and_calibrate_gating [of "5.5" ?s ?hair, THEN conjunct2, THEN conjunct1,
      THEN mp, OF hair_dryer_55]
  from hi have hi5: "recognition_confidence ?hair 5 (auto_cal_sensitivity ?s)
      > f32 DEVICE_RECOGNITION_CONFIDENCE"
    by simp
  note g5 = auto_recognize_and_calibrate_gating [of 5 ?s ?hair, THEN conjunct2, THEN conjunct1,
      THEN mp, OF hair_dryer_5]
  have "auto_recognize_and_calibrate 20 ?s = ?s"
    using auto_recognize_and_calibrate_gating [of 20 ?s] n by blast
  moreover have "auto_recognize_and_calibrate 5.5 ?s = ?s\<lparr>failed_recognitions := 1\<rparr>"
    using g55 [THEN conjunct2, THEN conjunct2, THEN conjunct2, THEN mp, OF lo]
    by (simp add: s)
  moreover have "adc_reads (auto_recognize_and_calibrate 5 ?s) = 50 \<and>
      successful_recognitions (auto_recognize_and_calibrate 5 ?s) = 1 \<and>
      failed_recognitions (auto_recognize_and_calibrate 5 ?s) = 0"
    using g5 [THEN conjunct2, THEN conjunct2, THEN conjunct1, THEN mp, OF hi5]
    by (auto simp: s)
  ultimately show ?thesis by (simp add: s)
qed

lemma raised_state_fields:
  "auto_cal_sensitivity raised_state = 0.75" "adc_reads raised_state = 0"
  "successful_recognitions raised_state = 0" "failed_recognitions raised_state = 0"
  by (simp_all add: raised_state_def set_auto_cal_sensitivity_def sampled_state_def
      initial_state_def)

text \<open>
  The 100 W bulb at its typical current 1.0 with the sensitivity 0.75: the formula gives
  exactly 0.9 in exact arithmetic, which does not exceed 0.9, and yet the calibration runs
  and the success counter goes up, since the \<^verbatim>\<open>float\<close> product
  15099495 / 16777216 exceeds the \<^verbatim>\<open>float\<close> 0.9, which is 15099494 / 16777216.
\<close>

theorem confidence_at_threshold_counterexample:
  "recognize_device 1 =
     Some \<lparr>min_current = 0.8, max_current = 1.2, typical_current = 1.0,
           device_name = ''100W Incandescent Bulb'', confidence_boost = 1.2\<rparr> \<and>
   auto_cal_sensitivity raised_state = 0.75 \<and>
   confidence_formula
     \<lparr>min_current = 0.8, max_current = 1.2, typical_current = 1.0,
      device_name = ''100W Incandescent Bulb'', confidence_boost = 1.2\<rparr> 1
     (auto_cal_sensitivity raised_state) = 0.9 \<and>
   \<not> confidence_formula
     \<lparr>min_current = 0.8, max_current = 1.2, typical_current = 1.0,
      device_name = ''100W Incandescent Bulb'', confidence_boost = 1.2\<rparr> 1
     (auto_cal_sensitivity raised_state) > 0.9 \<and>
   adc_reads (auto_recognize_and_calibrate 1 raised_state) = adc_reads raised_state + 50 \<and>
   successful_recognitions (auto_recognize_and_calibrate 1 raised_state) =
     successful_recognitions raised_state + 1 \<and>
   failed_recognitions (auto_recognize_and_calibrate 1 raised_state) =
     failed_recognitions raised_state"
proof -
  let ?bulb = "\<lparr>min_current = 0.8, max_current = 1.2, typical_current = 1.0,
           device_name = ''100W Incandescent Bulb'', confidence_boost = 1.2\<rparr>"
  have eq: "auto_recognize_and_calibrate 1 raised_state =
      (let s1 = calibrate_with_known_load 1 raised_state;
           s2 = s1\<lparr>successful_recognitions := successful_recognitions s1 + 1\<rparr>
       in learn_from_calibration 1 (1 / get_amps_per_volt s2) False s2)"
  proof -
    have "recognition_confidence ?bulb 1 (auto_cal_sensitivity raised_state)
        > f32 DEVICE_RECOGNITION_CONFIDENCE"
      unfolding raised_state_fields bulb_confidence f32_threshold by simp
    then show ?thesis
      by (simp add: auto_recognize_and_calibrate_def bulb_1 Let_def)
  qed
  have "adc_reads (auto_recognize_and_calibrate 1 raised_state) = adc_reads raised_state + 50"
    unfolding eq by (simp add: Let_def learn_from_calibration_fields calibrate_adc_reads)
  moreover have "successful_recognitions (auto_recognize_and_calibrate 1 raised_state) =
      successful_recognitions raised_state + 1"
    unfolding eq by (simp add: Let_def learn_from_calibration_fields calibrate_recognition_counters)
  moreover have "failed_recognitions (auto_recognize_and_calibrate 1 raised_state) =
      failed_recognitions raised_state"
    unfolding eq by (simp add: Let_def learn_from_calibration_fields calibrate_recognition_counters)
  ultimately show ?thesis
    by (simp add: bulb_1 raised_state_fields confidence_formula_def)
qed

subsection \<open>The RMS measurement\<close>

lemma rms_step_None:
  "adc_in s (adc_reads s) = None \<Longrightarrow>
   rms_step (s, a, n) = (s\<lparr>adc_reads := Suc (adc_reads s)\<rparr>, a, n)"
  by (simp add: rms_step_def adc_oneshot_read_def)

lemma rms_step_Some:
  "adc_in s (adc_reads s) = Some x \<Longrightarrow>
   rms_step (s, a, n) =
     (s\<lparr>adc_reads := Suc (adc_reads s),
        voltage_buffer := (voltage_buffer s)[buffer_index s := adc_to_voltage x - get_bias_voltage s],
        buffer_index := (buffer_index s + 1) mod RMS_BUFFER_SIZE,
        buffer_filled := (if (buffer_index s + 1) mod RMS_BUFFER_SIZE = 0 then True
                          else buffer_filled s)\<rparr>,
      a + (adc_to_voltage x - get_bias_voltage s) * (adc_to_voltage x - get_bias_voltage s),
      n + 1)"
  by (simp add: rms_step_def adc_oneshot_read_def Let_def get_bias_voltage_def)

lemma rms_loop_result:
  "rms_loop k (s, a, n) = (s', a', n') \<Longrightarrow>
     s' = s\<lparr>adc_reads := adc_reads s + k, voltage_buffer := voltage_buffer s',
            buffer_index := buffer_index s', buffer_filled := buffer_filled s'\<rparr> \<and>
     a' = a + sum_list (map (\<lambda>v. (v - get_bias_voltage s) * (v - get_bias_voltage s))
            (map adc_to_voltage (successful_reads (adc_window s k)))) \<and>
     n' = n + length (successful_reads (adc_window s k))"
proof (induction k arbitrary: s a n)
  case 0
  then show ?case by (simp add: adc_window_def)
next
  case (Suc k)
  show ?case
  proof (cases "adc_in s (adc_reads s)")
    case None
    let ?s1 = "s\<lparr>adc_reads := Suc (adc_reads s)\<rparr>"
    have "rms_loop k (?s1, a, n) = (s', a', n')"
      using Suc.prems by (simp add: rms_step_None [OF None])
    from Suc.IH [OF this] show ?thesis
      using None by (simp add: adc_window_Suc get_bias_voltage_def)
  next
    case (Some x)
    let ?ac = "adc_to_voltage x - get_bias_voltage s"
    let ?s1 = "s\<lparr>adc_reads := Suc (adc_reads s),
        voltage_buffer := (voltage_buffer s)[buffer_index s := ?ac],
        buffer_index := (buffer_index s + 1) mod RMS_BUFFER_SIZE,
        buffer_filled := (if (buffer_index s + 1) mod RMS_BUFFER_SIZE = 0 then True
                          else buffer_filled s)\<rparr>"
    have fr: "get_bias_voltage ?s1 = get_bias_voltage s"
      "adc_window ?s1 k = adc_window (s\<lparr>adc_reads := Suc (adc_reads s)\<rparr>) k"
      by (simp_all add: get_bias_voltage_def adc_window_def)
    have "rms_loop k (?s1, a + ?ac * ?ac, n + 1) = (s', a', n')"
      using Suc.prems by (simp add: rms_step_Some [OF Some])
    from Suc.IH [OF this] have
      1: "s' = ?s1\<lparr>adc_reads := adc_reads ?s1 + k, voltage_buffer := voltage_buffer s',
            buffer_index := buffer_index s', buffer_filled := buffer_filled s'\<rparr>"
      and 2: "a' = a + ?ac * ?ac + sum_list (map (\<lambda>v. (v - get_bias_voltage s) * (v - get_bias_voltage s))
            (map adc_to_voltage (successful_reads (adc_window (s\<lparr>adc_reads := Suc (adc_reads s)\<rparr>) k))))"
      and 3: "n' = n + 1 + length (successful_reads (adc_window (s\<lparr>adc_reads := Suc (adc_reads s)\<rparr>) k))"
      unfolding fr by blast+
    have "s' = s\<lparr>adc_reads := adc_reads s + Suc k, voltage_buffer := voltage_buffer s',
            buffer_index := buffer_index s', buffer_filled := buffer_filled s'\<rparr>"
      by (subst 1) simp
    then show ?thesis
      using 2 3 Some by (simp add: adc_window_Suc)
  qed
qed


lemma measure_rms_current_value:
  "fst (measure_rms_current s) =
     (if rms_voltages s = [] then 0
      else sqrt (sum_list (map (\<lambda>v. (v - get_bias_voltage s) * (v - get_bias_voltage s))
                   (rms_voltages s)) / real (length (rms_voltages s))) * get_amps_per_volt s)"
proof -
  obtain s1 a n where l: "rms_loop RMS_BUFFER_SIZE (s, 0, 0) = (s1, a, n)"
    by (metis prod_cases3)
  from rms_loop_result [OF l] have
    1: "s1 = s\<lparr>adc_reads := adc_reads s + RMS_BUFFER_SIZE, voltage_buffer := voltage_buffer s1,
            buffer_index := buffer_index s1, buffer_filled := buffer_filled s1\<rparr>"
    and 2: "a = sum_list (map (\<lambda>v. (v - get_bias_voltage s) * (v - get_bias_voltage s))
                   (rms_voltages s))"
    and 3: "n = length (rms_voltages s)"
    by (simp_all add: rms_voltages_def)
  have fr: "mutex_busy s1 = mutex_busy s" "amps_per_volt s1 = amps_per_volt s"
    by (subst 1, simp)+
  show ?thesis
    by (simp add: measure_rms_current_def l Let_def get_amps_per_volt_def fr 2 3)
qed

text \<open>
  Claim C5. A batch of \<^verbatim>\<open>measure_rms_current\<close> has at most 100 successfully read
  ticks. With none, the function returns 0. Otherwise, the mutex being free, it returns
  the square root of the mean, over the successfully read ticks only, of
  \<open>(voltage - bias_voltage)\<^sup>2\<close>, times the scale factor; when every such voltage equals
  the bias voltage the result is 0 (exactly, in real arithmetic).
\<close>

theorem measure_rms_current_rms:
  "length (rms_voltages s) \<le> RMS_BUFFER_SIZE \<and>
   (rms_voltages s = [] \<longrightarrow> fst (measure_rms_current s) = 0) \<and>
   (\<not> mutex_busy s \<and> rms_voltages s \<noteq> [] \<longrightarrow>
      fst (measure_rms_current s) =
        sqrt (sum_list (map (\<lambda>v. (v - bias_voltage s)\<^sup>2) (rms_voltages s)) /
              real (length (rms_voltages s))) * amps_per_volt s) \<and>
   (\<not> mutex_busy s \<and> (\<forall>v \<in> set (rms_voltages s). v = bias_voltage s) \<longrightarrow>
      fst (measure_rms_current s) = 0)"
proof (intro conjI impI)
  have "length (successful_reads rs) \<le> length rs" for rs
    by (induction rs rule: successful_reads.induct) simp_all
  from this [of "adc_window s RMS_BUFFER_SIZE"]
  show "length (rms_voltages s) \<le> RMS_BUFFER_SIZE"
    by (simp add: rms_voltages_def adc_window_def)
  show "fst (measure_rms_current s) = 0" if "rms_voltages s = []"
    using that by (simp add: measure_rms_current_value)
  show "fst (measure_rms_current s) =
        sqrt (sum_list (map (\<lambda>v. (v - bias_voltage s)\<^sup>2) (rms_voltages s)) /
              real (length (rms_voltages s))) * amps_per_volt s"
    if "\<not> mutex_busy s \<and> rms_voltages s \<noteq> []"
    using that
    by (simp add: measure_rms_current_value get_bias_voltage_def get_amps_per_volt_def power2_eq_square)
  show "fst (measure_rms_current s) = 0"
    if h: "\<not> mutex_busy s \<and> (\<forall>v \<in> set (rms_voltages s). v = bias_voltage s)"
  proof -
    have "map (\<lambda>v. (v - get_bias_voltage s) * (v - get_bias_voltage s)) (rms_voltages s) =
        map (\<lambda>v. 0) (rms_voltages s)"
      using h by (intro map_cong) (simp_all add: get_bias_voltage_def)
    then have "sum_list (map (\<lambda>v. (v - get_bias_voltage s) * (v - get_bias_voltage s))
        (rms_voltages s)) = sum_list (map (\<lambda>v. 0) (rms_voltages s))"
      by (simp only:)
    then have "sum_list (map (\<lambda>v. (v - get_bias_voltage s) * (v - get_bias_voltage s))
        (rms_voltages s)) = 0"
      by simp
    then show ?thesis
      unfolding measure_rms_current_value by simp
  qed
qed

lemma sampled_state_rms_voltages:
  "rms_voltages (sampled_state 0) = []"
  "rms_voltages (sampled_state 100) = replicate 100 3.3"
  "rms_voltages ((sampled_state 100)\<lparr>bias_voltage := 3.3\<rparr>) = replicate 100 3.3"
  by (simp_all add: rms_voltages_def adc_window_def sampled_state_def initial_state_def
      upt_rec adc_to_voltage_def eval_nat_numeral)

theorem measure_rms_current_rms_witness:
  "fst (measure_rms_current (sampled_state 0)) = 0 \<and>
   fst (measure_rms_current (sampled_state 100)) = 330 \<and>
   fst (measure_rms_current ((sampled_state 100)\<lparr>bias_voltage := 3.3\<rparr>)) = 0"
proof -
  have s: "\<not> mutex_busy (sampled_state 100)" "bias_voltage (sampled_state 100) = 1.65"
    "amps_per_volt (sampled_state 100) = 200"
    by (simp_all add: sampled_state_def initial_state_def)
  have r: "sqrt (1089 / 400) = 33 / 20"
    by (rule real_sqrt_unique) (simp_all add: power2_eq_square)
  have "fst (measure_rms_current (sampled_state 0)) = 0"
    using measure_rms_current_rms [of "sampled_state 0"]
    by (simp add: sampled_state_rms_voltages)
  moreover have "fst (measure_rms_current (sampled_state 100)) = 330"
    using measure_rms_current_rms [of "sampled_state 100"]
    by (simp add: sampled_state_rms_voltages s map_replicate_const sum_list_replicate power2_eq_square r)
  moreover have "fst (measure_rms_current ((sampled_state 100)\<lparr>bias_voltage := 3.3\<rparr>)) = 0"
    using measure_rms_current_rms [of "(sampled_state 100)\<lparr>bias_voltage := 3.3\<rparr>"]
    by (simp add: sampled_state_rms_voltages s sum_list_replicate)
  ultimately show ?thesis by simp
qed

subsection \<open>Applying the learned calibration\<close>

lemma learned_sums_eq:
  "i + k \<le> length pts \<Longrightarrow>
   learned_sums pts now rate i k (n, d, w) =
     (n + (\<Sum>p\<leftarrow>filter (\<lambda>p. measured_voltage p > 0.001) (take k (drop i pts)).
             expected_current p * point_weight now rate p),
      d + (\<Sum>p\<leftarrow>filter (\<lambda>p. measured_voltage p > 0.001) (take k (drop i pts)).
             measured_voltage p * point_weight now rate p),
      w + (\<Sum>p\<leftarrow>filter (\<lambda>p. measured_voltage p > 0.001) (take k (drop i pts)).
             point_weight now rate p))"
proof (induction k arbitrary: i n d w)
  case 0
  show ?case by simp
next
  case (Suc k)
  then have i: "i < length pts" and le: "Suc i + k \<le> length pts" by simp_all
  have t: "take (Suc k) (drop i pts) = pts ! i # take k (drop (Suc i) pts)"
    using i by (simp add: Cons_nth_drop_Suc [symmetric])
  show ?case
    by (simp add: t learned_step_def Let_def Suc.IH [OF le])
qed

lemma apply_learned_few:
  "learning_point_count s < MIN_LEARNING_POINTS \<Longrightarrow> apply_learned_calibration s = s"
  by (simp add: apply_learned_calibration_def)

lemma apply_learned_enough:
  assumes "MIN_LEARNING_POINTS \<le> learning_point_count s"
    and "length (learning_points s) = MAX_LEARNING_POINTS"
    and "\<not> mutex_busy s"
  shows "apply_learned_calibration s =
     (let used = filter (\<lambda>p. measured_voltage p > 0.001)
                   (take (min (learning_point_count s) MAX_LEARNING_POINTS) (learning_points s));
          numerator = (\<Sum>p\<leftarrow>used. expected_current p * point_weight (now_ms s) (learning_rate s) p);
          denominator = (\<Sum>p\<leftarrow>used. measured_voltage p * point_weight (now_ms s) (learning_rate s) p);
          total_weight = (\<Sum>p\<leftarrow>used. point_weight (now_ms s) (learning_rate s) p);
          learned_scale = numerator / denominator;
          s1 = s\<lparr>tick_reads := Suc (tick_reads s)\<rparr>
      in if denominator > 0.001 \<and> total_weight > 0.1 \<and>
            learned_scale > amps_per_volt s * 0.5 \<and> learned_scale < amps_per_volt s * 1.5
         then s1\<lparr>amps_per_volt := amps_per_volt s * 0.7 + learned_scale * 0.3\<rparr>
         else s1)"
proof -
  define n where "n = min (learning_point_count s) MAX_LEARNING_POINTS"
  define used where "used = filter (\<lambda>p. measured_voltage p > 0.001) (take n (learning_points s))"
  define num where "num = (\<Sum>p\<leftarrow>used. expected_current p * point_weight (now_ms s) (learning_rate s) p)"
  define den where "den = (\<Sum>p\<leftarrow>used. measured_voltage p * point_weight (now_ms s) (learning_rate s) p)"
  define tw where "tw = (\<Sum>p\<leftarrow>used. point_weight (now_ms s) (learning_rate s) p)"
  have n: "(if learning_point_count s < MAX_LEARNING_POINTS then learning_point_count s
            else MAX_LEARNING_POINTS) = n"
    by (simp add: n_def min_def)
  have le: "0 + n \<le> length (learning_points s)"
    using assms(2) by (simp add: n_def)
  have sums: "learned_sums (learning_points s) (tick_in s (tick_reads s)) (learning_rate s) 0 n (0, 0, 0)
      = (num, den, tw)"
    by (simp add: learned_sums_eq [OF le] num_def den_def tw_def used_def now_ms_def)
  have sums1: "learned_sums (learning_points s) (tick_in s (tick_reads s)) (learning_rate s) 0
      (learning_point_count s) (0, 0, 0) = (num, den, tw)"
    if "learning_point_count s < MAX_LEARNING_POINTS"
    using sums that by (simp add: n_def)
  have sums2: "learned_sums (learning_points s) (tick_in s (tick_reads s)) (learning_rate s) 0
      MAX_LEARNING_POINTS (0, 0, 0) = (num, den, tw)"
    if "\<not> learning_point_count s < MAX_LEARNING_POINTS"
    using sums that by (simp add: n_def)
  have "apply_learned_calibration s =
     (if den > 0.001 \<and> tw > 0.1 \<and>
         num / den > amps_per_volt s * 0.5 \<and> num / den < amps_per_volt s * 1.5
      then s\<lparr>tick_reads := Suc (tick_reads s), amps_per_volt := amps_per_volt s * 0.7 + num / den * 0.3\<rparr>
      else s\<lparr>tick_reads := Suc (tick_reads s)\<rparr>)"
    using assms(1,3)
    unfolding apply_learned_calibration_def tick_count_ms_def
    by (simp add: sums1 sums2 learned_scale_of_def get_amps_per_volt_def set_amps_per_volt_def Let_def)
  then show ?thesis
    unfolding Let_def num_def den_def tw_def used_def n_def by simp
qed


text \<open>
  Claim C3. \<^verbatim>\<open>apply_learned_calibration\<close> leaves the state as it is with fewer than 3
  points. The weight of a point is \<open>confidence * 0.95 ^ (age in days) * learning_rate\<close>,
  the age being \<open>now - timestamp\<close> in milliseconds over 86400000. With 3 points or more
  (and the mutex free) the points recorded whose measured voltage exceeds 0.001 give the
  three weighted sums; when the denominator exceeds 0.001, the total weight exceeds 0.1
  and the quotient \<open>learned_scale\<close> lies strictly between 0.5 and 1.5 times the current
  scale, the scale becomes \<open>0.7 * current + 0.3 * learned_scale\<close>; otherwise only the clock
  has been read. On the two fresh manual points (5 A, 0.025 V) and (10 A, 0.05 V) with
  learning rate 1 the sums give the estimate 200.
\<close>

theorem apply_learned_calibration_cases:
  "(learning_point_count s < MIN_LEARNING_POINTS \<longrightarrow> apply_learned_calibration s = s) \<and>
   point_weight now rate p =
     confidence p * 0.95 powr (real (unat (now - timestamp p)) / 86400000) * rate \<and>
   (MIN_LEARNING_POINTS \<le> learning_point_count s \<and>
    length (learning_points s) = MAX_LEARNING_POINTS \<and> \<not> mutex_busy s \<longrightarrow>
      apply_learned_calibration s =
        (let used = filter (\<lambda>p. measured_voltage p > 0.001)
                      (take (min (learning_point_count s) MAX_LEARNING_POINTS) (learning_points s));
             numerator = (\<Sum>p\<leftarrow>used. expected_current p * point_weight (now_ms s) (learning_rate s) p);
             denominator = (\<Sum>p\<leftarrow>used. measured_voltage p * point_weight (now_ms s) (learning_rate s) p);
             total_weight = (\<Sum>p\<leftarrow>used. point_weight (now_ms s) (learning_rate s) p);
             learned_scale = numerator / denominator;
             s1 = s\<lparr>tick_reads := Suc (tick_reads s)\<rparr>
         in if denominator > 0.001 \<and> total_weight > 0.1 \<and>
               learned_scale > amps_per_volt s * 0.5 \<and> learned_scale < amps_per_volt s * 1.5
            then s1\<lparr>amps_per_volt := amps_per_volt s * 0.7 + learned_scale * 0.3\<rparr>
            else s1)) \<and>
   learned_scale_of
     (learned_sums
        [\<lparr>expected_current = 5, measured_voltage = 0.025, timestamp = now,
          confidence = 1, auto_generated = False\<rparr>,
         \<lparr>expected_current = 10, measured_voltage = 0.05, timestamp = now,
          confidence = 1, auto_generated = False\<rparr>] now 1 0 2 (0, 0, 0)) = 200"
proof (intro conjI impI)
  show "apply_learned_calibration s = s" if "learning_point_count s < MIN_LEARNING_POINTS"
    using that by (rule apply_learned_few)
  show "point_weight now rate p =
     confidence p * 0.95 powr (real (unat (now - timestamp p)) / 86400000) * rate"
    by (simp add: point_weight_def)
  show "apply_learned_calibration s =
        (let used = filter (\<lambda>p. measured_voltage p > 0.001)
                      (take (min (learning_point_count s) MAX_LEARNING_POINTS) (learning_points s));
             numerator = (\<Sum>p\<leftarrow>used. expected_current p * point_weight (now_ms s) (learning_rate s) p);
             denominator = (\<Sum>p\<leftarrow>used. measured_voltage p * point_weight (now_ms s) (learning_rate s) p);
             total_weight = (\<Sum>p\<leftarrow>used. point_weight (now_ms s) (learning_rate s) p);
             learned_scale = numerator / denominator;
             s1 = s\<lparr>tick_reads := Suc (tick_reads s)\<rparr>
         in if denominator > 0.001 \<and> total_weight > 0.1 \<and>
               learned_scale > amps_per_volt s * 0.5 \<and> learned_scale < amps_per_volt s * 1.5
            then s1\<lparr>amps_per_volt := amps_per_volt s * 0.7 + learned_scale * 0.3\<rparr>
            else s1)"
    if "MIN_LEARNING_POINTS \<le> learning_point_count s \<and>
        length (learning_points s) = MAX_LEARNING_POINTS \<and> \<not> mutex_busy s"
    using that by (intro apply_learned_enough) simp_all
  show "learned_scale_of
     (learned_sums
        [\<lparr>expected_current = 5, measured_voltage = 0.025, timestamp = now,
          confidence = 1, auto_generated = False\<rparr>,
         \<lparr>expected_current = 10, measured_voltage = 0.05, timestamp = now,
          confidence = 1, auto_generated = False\<rparr>] now 1 0 2 (0, 0, 0)) = 200"
    by (simp add: eval_nat_numeral learned_step_def point_weight_def learned_scale_of_def)
qed

theorem apply_learned_calibration_cases_witness:
  "apply_learned_calibration (sampled_state 0) = sampled_state 0 \<and>
   amps_per_volt learned_state = 200 \<and>
   apply_learned_calibration learned_state =
     learned_state\<lparr>tick_reads := 1, amps_per_volt := 215\<rparr>"
proof -
  have s0: "learning_point_count (sampled_state 0) < MIN_LEARNING_POINTS"
    by (simp add: sampled_state_def initial_state_def)
  have s: "MIN_LEARNING_POINTS \<le> learning_point_count learned_state \<and>
      length (learning_points learned_state) = MAX_LEARNING_POINTS \<and> \<not> mutex_busy learned_state"
    "amps_per_volt learned_state = 200" "learning_point_count learned_state = 3"
    "tick_reads learned_state = 0" "now_ms learned_state = 0" "learning_rate learned_state = 1"
    by (simp_all add: learned_state_def sampled_state_def initial_state_def now_ms_def)
  have u: "take 3 (learning_points learned_state) =
      [\<lparr>expected_current = 5, measured_voltage = 0.02, timestamp = 0,
         confidence = 1.0, auto_generated = False\<rparr>,
       \<lparr>expected_current = 10, measured_voltage = 0.04, timestamp = 0,
         confidence = 1.0, auto_generated = False\<rparr>,
       \<lparr>expected_current = 2.5, measured_voltage = 0.01, timestamp = 0,
         confidence = 1.0, auto_generated = False\<rparr>]"
    by (simp add: learned_state_def eval_nat_numeral)
  have "apply_learned_calibration (sampled_state 0) = sampled_state 0"
    using apply_learned_calibration_cases [of "sampled_state 0"] s0 by blast
  moreover have "apply_learned_calibration learned_state =
     learned_state\<lparr>tick_reads := 1, amps_per_volt := 215\<rparr>"
    using apply_learned_calibration_cases [of learned_state] s(1)
    by (simp add: s(2-) u point_weight_def Let_def)
  ultimately show ?thesis by (simp add: s)
qed

subsection \<open>Adaptation of the sensitivity\<close>

lemma adaptive_sensitivity:
  "auto_cal_sensitivity (adaptive_threshold_adjustment s) =
     (if now_ms s - last_adjustment s < 60 * 60 * 1000 then auto_cal_sensitivity s
      else if success_rate s > 0.8 \<and> auto_cal_sensitivity s < 0.9 then auto_cal_sensitivity s + 0.05
      else if success_rate s < 0.4 \<and> auto_cal_sensitivity s > 0.3 then auto_cal_sensitivity s - 0.05
      else auto_cal_sensitivity s)"
  by (simp add: adaptive_threshold_adjustment_def tick_count_ms_def now_ms_def Let_def success_rate_def)

text \<open>
  Claim C9, amended. The success rate is 0.5 when both counters are zero, and the quotient
  of the successes by the attempts otherwise. \<^verbatim>\<open>adaptive_threshold_adjustment\<close> raises
  the sensitivity only by 0.05 and only when the rate exceeds 0.8 and the sensitivity is
  below 0.9; it lowers it only by 0.05 and only when the rate is below 0.4 and the
  sensitivity above 0.3; once an hour has passed it does so. The guard is tested before
  the step and nothing clamps the result: from a sensitivity within \<open>[0.3, 0.9]\<close> the
  result lies strictly between 0.25 and 0.95, and within \<open>[0.3, 0.9]\<close> when the
  sensitivity was within \<open>[0.35, 0.85]\<close>. A manual override is stored when it lies within
  \<open>[0, 1]\<close> and ignored otherwise.
\<close>

theorem adaptive_threshold_adjustment_steps:
  "(successful_recognitions s = 0 \<and> failed_recognitions s = 0 \<longrightarrow> success_rate s = 0.5) \<and>
   (successful_recognitions s + failed_recognitions s \<noteq> 0 \<longrightarrow>
      success_rate s = real (unat (successful_recognitions s)) /
                       real (unat (successful_recognitions s + failed_recognitions s))) \<and>
   (auto_cal_sensitivity (adaptive_threshold_adjustment s) > auto_cal_sensitivity s \<longrightarrow>
      auto_cal_sensitivity (adaptive_threshold_adjustment s) = auto_cal_sensitivity s + 0.05 \<and>
      success_rate s > 0.8 \<and> auto_cal_sensitivity s < 0.9) \<and>
   (auto_cal_sensitivity (adaptive_threshold_adjustment s) < auto_cal_sensitivity s \<longrightarrow>
      auto_cal_sensitivity (adaptive_threshold_adjustment s) = auto_cal_sensitivity s - 0.05 \<and>
      success_rate s < 0.4 \<and> auto_cal_sensitivity s > 0.3) \<and>
   (\<not> now_ms s - last_adjustment s < 60 * 60 * 1000 \<and>
    success_rate s > 0.8 \<and> auto_cal_sensitivity s < 0.9 \<longrightarrow>
      auto_cal_sensitivity (adaptive_threshold_adjustment s) = auto_cal_sensitivity s + 0.05) \<and>
   (\<not> now_ms s - last_adjustment s < 60 * 60 * 1000 \<and>
    \<not> (success_rate s > 0.8 \<and> auto_cal_sensitivity s < 0.9) \<and>
    success_rate s < 0.4 \<and> auto_cal_sensitivity s > 0.3 \<longrightarrow>
      auto_cal_sensitivity (adaptive_threshold_adjustment s) = auto_cal_sensitivity s - 0.05) \<and>
   (0.3 \<le> auto_cal_sensitivity s \<and> auto_cal_sensitivity s \<le> 0.9 \<longrightarrow>
      0.25 < auto_cal_sensitivity (adaptive_threshold_adjustment s) \<and>
      auto_cal_sensitivity (adaptive_threshold_adjustment s) < 0.95) \<and>
   (0.35 \<le> auto_cal_sensitivity s \<and> auto_cal_sensitivity s \<le> 0.85 \<longrightarrow>
      0.3 \<le> auto_cal_sensitivity (adaptive_threshold_adjustment s) \<and>
      auto_cal_sensitivity (adaptive_threshold_adjustment s) \<le> 0.9) \<and>
   (0 \<le> v \<and> v \<le> 1 \<longrightarrow> auto_cal_sensitivity (set_auto_cal_sensitivity v s) = v) \<and>
   (\<not> (0 \<le> v \<and> v \<le> 1) \<longrightarrow> set_auto_cal_sensitivity v s = s)"
  unfolding adaptive_sensitivity
  by (auto simp: success_rate_def set_auto_cal_sensitivity_def word_gt_0)

lemma eager_state_fields:
  "auto_cal_sensitivity eager_state = 0.88" "success_rate eager_state = 0.9"
  "now_ms eager_state - last_adjustment eager_state = 3600000"
  "auto_cal_sensitivity wary_state = 0.31" "success_rate wary_state = 0.1"
  "now_ms wary_state - last_adjustment wary_state = 3600000"
  by (simp_all add: eager_state_def wary_state_def set_auto_cal_sensitivity_def initial_state_def
      success_rate_def now_ms_def)

theorem adaptive_threshold_adjustment_steps_witness:
  "auto_cal_sensitivity (adaptive_threshold_adjustment eager_state) = 0.93 \<and>
   auto_cal_sensitivity (adaptive_threshold_adjustment wary_state) = 0.26 \<and>
   auto_cal_sensitivity (set_auto_cal_sensitivity 0.5 eager_state) = 0.5 \<and>
   set_auto_cal_sensitivity 2 eager_state = eager_state"
proof -
  have "auto_cal_sensitivity (adaptive_threshold_adjustment eager_state) = 0.93"
    using adaptive_threshold_adjustment_steps [of eager_state]
    by (simp add: eager_state_fields)
  moreover have "auto_cal_sensitivity (adaptive_threshold_adjustment wary_state) = 0.26"
    using adaptive_threshold_adjustment_steps [of wary_state]
    by (simp add: eager_state_fields)
  moreover have "auto_cal_sensitivity (set_auto_cal_sensitivity 0.5 eager_state) = 0.5"
    using adaptive_threshold_adjustment_steps [of eager_state "0.5"] by simp
  moreover have "set_auto_cal_sensitivity 2 eager_state = eager_state"
    using adaptive_threshold_adjustment_steps [of eager_state 2] by simp
  ultimately show ?thesis by simp
qed

text \<open>
  From the sensitivity 0.88, inside \<open>[0.3, 0.9]\<close>, and a success rate of 0.9 the adjustment
  yields 0.93, above 0.9.
\<close>

theorem adaptive_threshold_no_clamp_counterexample:
  "success_rate eager_state > 0.8 \<and> auto_cal_sensitivity eager_state < 0.9 \<and>
   0.3 \<le> auto_cal_sensitivity eager_state \<and>
   auto_cal_sensitivity (adaptive_threshold_adjustment eager_state) =
     auto_cal_sensitivity eager_state + 0.05 \<and>
   auto_cal_sensitivity (adaptive_threshold_adjustment eager_state) > 0.9"
  by (simp add: adaptive_sensitivity eager_state_fields)

subsection \<open>Range checks of the commands that set a parameter\<close>

lemma prefix_split: "take n c = lit \<Longrightarrow> length lit = n \<Longrightarrow> c = lit @ drop n c"
  by (metis append_take_drop_id)

lemma process_SET_BIAS_text:
  "process_udp_command atof (''SET_BIAS:'' @ rest) s =
     (let bias = atof rest
      in if bias \<ge> 0.1 \<and> bias \<le> 3.0
         then Some (set_bias_voltage bias s, (''SET_BIAS:SUCCESS,VALUE=%.4f'', [F bias]))
         else Some (s, (''SET_BIAS:ERROR,INVALID_RANGE'', [])))"
  by (simp add: process_udp_command_def strncmp_eq_def Let_def)

lemma process_SET_SCALE_text:
  "process_udp_command atof (''SET_SCALE:'' @ rest) s =
     (let scale = atof rest
      in if scale \<ge> 1.0 \<and> scale \<le> 1000.0
         then Some (set_amps_per_volt scale s, (''SET_SCALE:SUCCESS,VALUE=%.2f'', [F scale]))
         else Some (s, (''SET_SCALE:ERROR,INVALID_RANGE'', [])))"
  by (simp add: process_udp_command_def strncmp_eq_def Let_def)

lemma process_MANUAL_CAL_text:
  "process_udp_command atof (''MANUAL_CAL:'' @ rest) s =
     (if CHR '','' \<in> set rest
      then let bias_voltage' = atof (takeWhile (\<lambda>c. c \<noteq> CHR '','') rest);
               scale_factor = atof (tl (dropWhile (\<lambda>c. c \<noteq> CHR '','') rest))
           in Some (set_amps_per_volt scale_factor (set_bias_voltage bias_voltage' s),
                    (''MANUAL_CAL:SUCCESS,BIAS=%.4f,SCALE=%.2f'', [F bias_voltage', F scale_factor]))
      else Some (s, (''MANUAL_CAL:ERROR,INVALID_FORMAT'', [])))"
  by (simp add: process_udp_command_def strncmp_eq_def Let_def)

lemma process_SET_BIAS:
  assumes "strncmp_eq command ''SET_BIAS:'' 9"
  shows "process_udp_command atof command s =
     (let bias = atof (drop 9 command)
      in if bias \<ge> 0.1 \<and> bias \<le> 3.0
         then Some (set_bias_voltage bias s, (''SET_BIAS:SUCCESS,VALUE=%.4f'', [F bias]))
         else Some (s, (''SET_BIAS:ERROR,INVALID_RANGE'', [])))"
proof -
  from assms have "take 9 command = ''SET_BIAS:''" by (simp add: strncmp_eq_def)
  then have "command = ''SET_BIAS:'' @ drop 9 command"
    by (rule prefix_split) simp
  with process_SET_BIAS_text [of atof "drop 9 command" s] show ?thesis by simp
qed

lemma process_SET_SCALE:
  assumes "strncmp_eq command ''SET_SCALE:'' 10"
  shows "process_udp_command atof command s =
     (let scale = atof (drop 10 command)
      in if scale \<ge> 1.0 \<and> scale \<le> 1000.0
         then Some (set_amps_per_volt scale s, (''SET_SCALE:SUCCESS,VALUE=%.2f'', [F scale]))
         else Some (s, (''SET_SCALE:ERROR,INVALID_RANGE'', [])))"
proof -
  from assms have "take 10 command = ''SET_SCALE:''" by (simp add: strncmp_eq_def)
  then have "command = ''SET_SCALE:'' @ drop 10 command"
    by (rule prefix_split) simp
  with process_SET_SCALE_text [of atof "drop 10 command" s] show ?thesis by simp
qed

lemma process_MANUAL_CAL:
  assumes "strncmp_eq command ''MANUAL_CAL:'' 11"
  shows "process_udp_command atof command s =
     (let rest = drop 11 command
      in if CHR '','' \<in> set rest
         then let bias_voltage' = atof (takeWhile (\<lambda>c. c \<noteq> CHR '','') rest);
                  scale_factor = atof (tl (dropWhile (\<lambda>c. c \<noteq> CHR '','') rest))
              in Some (set_amps_per_volt scale_factor (set_bias_voltage bias_voltage' s),
                       (''MANUAL_CAL:SUCCESS,BIAS=%.4f,SCALE=%.2f'', [F bias_voltage', F scale_factor]))
         else Some (s, (''MANUAL_CAL:ERROR,INVALID_FORMAT'', [])))"
proof -
  from assms have "take 11 command = ''MANUAL_CAL:''" by (simp add: strncmp_eq_def)
  then have "command = ''MANUAL_CAL:'' @ drop 11 command"
    by (rule prefix_split) simp
  with process_MANUAL_CAL_text [of atof "drop 11 command" s] show ?thesis by (simp add: Let_def)
qed

text \<open>
  Claim C10. A command that begins with \<^verbatim>\<open>SET_BIAS:\<close> calls \<^verbatim>\<open>set_bias_voltage\<close>
  only when its value lies within \<open>[0.1, 3.0]\<close>, and one that begins with
  \<^verbatim>\<open>SET_SCALE:\<close> calls \<^verbatim>\<open>set_amps_per_volt\<close> only when its value lies within
  \<open>[1.0, 1000.0]\<close>; another value is answered with \<^verbatim>\<open>INVALID_RANGE\<close> and the state
  stays as it is. Each setter writes its own parameter only. A well-formed
  \<^verbatim>\<open>MANUAL_CAL:\<close> command calls both setters with its values, whatever they are.
\<close>

theorem set_bias_scale_range_checked:
  "(strncmp_eq command ''SET_BIAS:'' 9 \<longrightarrow>
      (0.1 \<le> atof (drop 9 command) \<and> atof (drop 9 command) \<le> 3.0 \<longrightarrow>
         process_udp_command atof command s =
           Some (set_bias_voltage (atof (drop 9 command)) s,
                 (''SET_BIAS:SUCCESS,VALUE=%.4f'', [F (atof (drop 9 command))]))) \<and>
      (\<not> (0.1 \<le> atof (drop 9 command) \<and> atof (drop 9 command) \<le> 3.0) \<longrightarrow>
         process_udp_command atof command s = Some (s, (''SET_BIAS:ERROR,INVALID_RANGE'', [])))) \<and>
   (strncmp_eq command ''SET_SCALE:'' 10 \<longrightarrow>
      (1.0 \<le> atof (drop 10 command) \<and> atof (drop 10 command) \<le> 1000.0 \<longrightarrow>
         process_udp_command atof command s =
           Some (set_amps_per_volt (atof (drop 10 command)) s,
                 (''SET_SCALE:SUCCESS,VALUE=%.2f'', [F (atof (drop 10 command))]))) \<and>
      (\<not> (1.0 \<le> atof (drop 10 command) \<and> atof (drop 10 command) \<le> 1000.0) \<longrightarrow>
         process_udp_command atof command s = Some (s, (''SET_SCALE:ERROR,INVALID_RANGE'', [])))) \<and>
   (strncmp_eq command ''MANUAL_CAL:'' 11 \<and> CHR '','' \<in> set (drop 11 command) \<longrightarrow>
      process_udp_command atof command s =
        (let bias_voltage' = atof (takeWhile (\<lambda>c. c \<noteq> CHR '','') (drop 11 command));
             scale_factor = atof (tl (dropWhile (\<lambda>c. c \<noteq> CHR '','') (drop 11 command)))
         in Some (set_amps_per_volt scale_factor (set_bias_voltage bias_voltage' s),
                  (''MANUAL_CAL:SUCCESS,BIAS=%.4f,SCALE=%.2f'', [F bias_voltage', F scale_factor])))) \<and>
   set_bias_voltage v s = (if mutex_busy s then s else s\<lparr>bias_voltage := v\<rparr>) \<and>
   set_amps_per_volt v s = (if mutex_busy s then s else s\<lparr>amps_per_volt := v\<rparr>)"
  by (simp add: process_SET_BIAS process_SET_SCALE process_MANUAL_CAL Let_def
      set_bias_voltage_def set_amps_per_volt_def)


theorem set_bias_scale_range_checked_witness:
  "process_udp_command (atof_table [(''1.5'', 1.5), (''5'', 5), (''150'', 150), (''0.5'', 0.5), (''0'', 0)]) ''SET_BIAS:1.5''
     (sampled_state 0) =
     Some ((sampled_state 0)\<lparr>bias_voltage := 1.5\<rparr>, (''SET_BIAS:SUCCESS,VALUE=%.4f'', [F 1.5])) \<and>
   process_udp_command (atof_table [(''1.5'', 1.5), (''5'', 5), (''150'', 150), (''0.5'', 0.5), (''0'', 0)]) ''SET_BIAS:5''
     (sampled_state 0) =
     Some (sampled_state 0, (''SET_BIAS:ERROR,INVALID_RANGE'', [])) \<and>
   process_udp_command (atof_table [(''1.5'', 1.5), (''5'', 5), (''150'', 150), (''0.5'', 0.5), (''0'', 0)]) ''SET_SCALE:150''
     (sampled_state 0) =
     Some ((sampled_state 0)\<lparr>amps_per_volt := 150\<rparr>, (''SET_SCALE:SUCCESS,VALUE=%.2f'', [F 150])) \<and>
   process_udp_command (atof_table [(''1.5'', 1.5), (''5'', 5), (''150'', 150), (''0.5'', 0.5), (''0'', 0)]) ''SET_SCALE:0.5''
     (sampled_state 0) =
     Some (sampled_state 0, (''SET_SCALE:ERROR,INVALID_RANGE'', [])) \<and>
   process_udp_command (atof_table [(''1.5'', 1.5), (''5'', 5), (''150'', 150), (''0.5'', 0.5), (''0'', 0)]) ''MANUAL_CAL:5,0''
     (sampled_state 0) =
     Some ((sampled_state 0)\<lparr>bias_voltage := 5, amps_per_volt := 0\<rparr>,
           (''MANUAL_CAL:SUCCESS,BIAS=%.4f,SCALE=%.2f'', [F 5, F 0]))"
proof -
  let ?atof = "atof_table [(''1.5'', 1.5), (''5'', 5), (''150'', 150), (''0.5'', 0.5), (''0'', 0)]"
  let ?s = "sampled_state 0"
  have m: "\<not> mutex_busy ?s" by (simp add: sampled_state_def initial_state_def)
  have "process_udp_command ?atof ''SET_BIAS:1.5'' ?s =
     Some (?s\<lparr>bias_voltage := 1.5\<rparr>, (''SET_BIAS:SUCCESS,VALUE=%.4f'', [F 1.5]))"
    using set_bias_scale_range_checked [of "''SET_BIAS:1.5''" ?atof ?s "1.5"] m
    by (simp add: strncmp_eq_def atof_table_def)
  moreover have "process_udp_command ?atof ''SET_BIAS:5'' ?s =
     Some (?s, (''SET_BIAS:ERROR,INVALID_RANGE'', []))"
    using set_bias_scale_range_checked [of "''SET_BIAS:5''" ?atof ?s]
    by (simp add: strncmp_eq_def atof_table_def)
  moreover have "process_udp_command ?atof ''SET_SCALE:150'' ?s =
     Some (?s\<lparr>amps_per_volt := 150\<rparr>, (''SET_SCALE:SUCCESS,VALUE=%.2f'', [F 150]))"
    using set_bias_scale_range_checked [of "''SET_SCALE:150''" ?atof ?s 150] m
    by (simp add: strncmp_eq_def atof_table_def)
  moreover have "process_udp_command ?atof ''SET_SCALE:0.5'' ?s =
     Some (?s, (''SET_SCALE:ERROR,INVALID_RANGE'', []))"
    using set_bias_scale_range_checked [of "''SET_SCALE:0.5''" ?atof ?s]
    by (simp add: strncmp_eq_def atof_table_def)
  moreover have "process_udp_command ?atof ''MANUAL_CAL:5,0'' ?s =
     Some (?s\<lparr>bias_voltage := 5, amps_per_volt := 0\<rparr>,
           (''MANUAL_CAL:SUCCESS,BIAS=%.4f,SCALE=%.2f'', [F 5, F 0]))"
    using set_bias_scale_range_checked [of "''MANUAL_CAL:5,0''" ?atof ?s] m
    by (simp add: strncmp_eq_def atof_table_def set_bias_voltage_def set_amps_per_volt_def)
  ultimately show ?thesis by simp
qed

subsection \<open>The scale factor after a manual calibration\<close>

text \<open>
  Claim C8 says that the scale factor is positive in every reachable state. From the
  initial state, where it is 200, the command \<^verbatim>\<open>MANUAL_CAL:1.65,0\<close> stores the scale
  factor 0, whereas \<^verbatim>\<open>SET_SCALE:0\<close> is refused.
\<close>

theorem manual_cal_stores_zero_scale:
  "process_udp_command (atof_table [(''1.65'', 1.65), (''0'', 0)]) ''MANUAL_CAL:1.65,0''
     (sampled_state 0) =
     Some ((sampled_state 0)\<lparr>bias_voltage := 1.65, amps_per_volt := 0\<rparr>,
           (''MANUAL_CAL:SUCCESS,BIAS=%.4f,SCALE=%.2f'', [F 1.65, F 0])) \<and>
   0 < amps_per_volt (sampled_state 0) \<and>
   \<not> 0 < amps_per_volt ((sampled_state 0)\<lparr>bias_voltage := 1.65, amps_per_volt := 0\<rparr>) \<and>
   process_udp_command (atof_table [(''1.65'', 1.65), (''0'', 0)]) ''SET_SCALE:0''
     (sampled_state 0) =
     Some (sampled_state 0, (''SET_SCALE:ERROR,INVALID_RANGE'', []))"
  by (simp add: process_udp_command_def strncmp_eq_def atof_table_def Let_def
      set_bias_voltage_def set_amps_per_volt_def sampled_state_def initial_state_def)

subsection \<open>The stability detector\<close>

lemma calibrate_frame:
  "current_history (calibrate_with_known_load K s) = current_history s"
  "history_index (calibrate_with_known_load K s) = history_index s"
  "history_full (calibrate_with_known_load K s) = history_full s"
  "auto_calibration_enabled (calibrate_with_known_load K s) = auto_calibration_enabled s"
  "in_stable_period (calibrate_with_known_load K s) = in_stable_period s"
  "stable_load_value (calibrate_with_known_load K s) = stable_load_value s"
  "stable_load_start (calibrate_with_known_load K s) = stable_load_start s"
  "auto_cal_count (calibrate_with_known_load K s) = auto_cal_count s"
  "last_scale_calibration (calibrate_with_known_load K s) = last_scale_calibration s"
  "consecutive_zero_readings (calibrate_with_known_load K s) = consecutive_zero_readings s"
  "mutex_busy (calibrate_with_known_load K s) = mutex_busy s"
  by (subst calibrate_shape, simp)+

lemma auto_recognize_frame:
  "current_history (auto_recognize_and_calibrate v s) = current_history s"
  "history_index (auto_recognize_and_calibrate v s) = history_index s"
  "history_full (auto_recognize_and_calibrate v s) = history_full s"
  "auto_calibration_enabled (auto_recognize_and_calibrate v s) = auto_calibration_enabled s"
  "in_stable_period (auto_recognize_and_calibrate v s) = in_stable_period s"
  "stable_load_value (auto_recognize_and_calibrate v s) = stable_load_value s"
  "stable_load_start (auto_recognize_and_calibrate v s) = stable_load_start s"
  "consecutive_zero_readings (auto_recognize_and_calibrate v s) = consecutive_zero_readings s"
  "auto_cal_count (auto_recognize_and_calibrate v s) = auto_cal_count s"
  "last_scale_calibration (auto_recognize_and_calibrate v s) = last_scale_calibration s"
  by (simp_all add: auto_recognize_and_calibrate_def Let_def learn_from_calibration_fields
      calibrate_frame split: option.split)

lemma continuous_near_zero:
  "r < AUTO_CAL_ZERO_THRESHOLD \<Longrightarrow>
   continuous_auto_calibration r s =
     s\<lparr>consecutive_zero_readings := consecutive_zero_readings s + 1\<rparr>"
  by (simp add: continuous_auto_calibration_def)

lemma continuous_not_full:
  "\<not> r < AUTO_CAL_ZERO_THRESHOLD \<Longrightarrow> \<not> history_full s \<Longrightarrow>
   continuous_auto_calibration r s = s\<lparr>consecutive_zero_readings := 0\<rparr>"
  by (simp add: continuous_auto_calibration_def)

lemma continuous_start:
  "\<not> r < AUTO_CAL_ZERO_THRESHOLD \<Longrightarrow> history_full s \<Longrightarrow>
   is_stable (current_history s) \<Longrightarrow> \<not> in_stable_period s \<Longrightarrow>
   continuous_auto_calibration r s =
     auto_recognize_and_calibrate (history_mean (current_history s))
       (s\<lparr>consecutive_zero_readings := 0, tick_reads := Suc (tick_reads s),
          stable_load_start := now_ms s,
          stable_load_value := history_mean (current_history s),
          in_stable_period := True\<rparr>)"
  by (simp add: continuous_auto_calibration_def Let_def tick_count_ms_def now_ms_def)

lemma continuous_hold:
  "\<not> r < AUTO_CAL_ZERO_THRESHOLD \<Longrightarrow> history_full s \<Longrightarrow>
   is_stable (current_history s) \<Longrightarrow> in_stable_period s \<Longrightarrow>
   \<not> now_ms s - stable_load_start s > DEVICE_STABLE_TIME_MS \<Longrightarrow>
   continuous_auto_calibration r s =
     s\<lparr>consecutive_zero_readings := 0, tick_reads := Suc (tick_reads s)\<rparr>"
  by (simp add: continuous_auto_calibration_def Let_def tick_count_ms_def now_ms_def)

lemma continuous_release:
  "\<not> r < AUTO_CAL_ZERO_THRESHOLD \<Longrightarrow> history_full s \<Longrightarrow>
   is_stable (current_history s) \<Longrightarrow> in_stable_period s \<Longrightarrow>
   now_ms s - stable_load_start s > DEVICE_STABLE_TIME_MS \<Longrightarrow>
   \<not> now_ms s - last_scale_calibration s > AUTO_CAL_ZERO_INTERVAL_MS \<Longrightarrow>
   continuous_auto_calibration r s =
     s\<lparr>consecutive_zero_readings := 0, tick_reads := Suc (tick_reads s),
       in_stable_period := False\<rparr>"
  by (simp add: continuous_auto_calibration_def Let_def tick_count_ms_def now_ms_def)

lemma continuous_recalibrate:
  "\<not> r < AUTO_CAL_ZERO_THRESHOLD \<Longrightarrow> history_full s \<Longrightarrow>
   is_stable (current_history s) \<Longrightarrow> in_stable_period s \<Longrightarrow>
   now_ms s - stable_load_start s > DEVICE_STABLE_TIME_MS \<Longrightarrow>
   now_ms s - last_scale_calibration s > AUTO_CAL_ZERO_INTERVAL_MS \<Longrightarrow>
   continuous_auto_calibration r s =
     (let s1 = s\<lparr>consecutive_zero_readings := 0, tick_reads := Suc (tick_reads s)\<rparr>;
          s4 = (calibrate_with_known_load (stable_load_value s) s1)
                 \<lparr>last_scale_calibration := now_ms s, auto_cal_count := auto_cal_count s + 1\<rparr>
      in (learn_from_calibration (stable_load_value s)
            (stable_load_value s / get_amps_per_volt s4) False s4)
           \<lparr>in_stable_period := False\<rparr>)"
  by (simp add: continuous_auto_calibration_def Let_def tick_count_ms_def now_ms_def calibrate_frame)

lemma continuous_unstable:
  "\<not> r < AUTO_CAL_ZERO_THRESHOLD \<Longrightarrow> history_full s \<Longrightarrow>
   \<not> is_stable (current_history s) \<Longrightarrow>
   continuous_auto_calibration r s =
     s\<lparr>consecutive_zero_readings := 0, in_stable_period := False\<rparr>"
  by (simp add: continuous_auto_calibration_def Let_def)

lemma continuous_frame:
  "current_history (continuous_auto_calibration r s) = current_history s"
  "history_index (continuous_auto_calibration r s) = history_index s"
  "history_full (continuous_auto_calibration r s) = history_full s"
  "auto_calibration_enabled (continuous_auto_calibration r s) = auto_calibration_enabled s"
  by (simp_all add: continuous_auto_calibration_def Let_def tick_count_ms_def
      learn_from_calibration_fields calibrate_frame auto_recognize_frame)


lemma history_sum_eq:
  "i + k \<le> length h \<Longrightarrow> history_sum h i k a = a + sum_list (take k (drop i h))"
proof (induction k arbitrary: i a)
  case 0
  show ?case by simp
next
  case (Suc k)
  then have i: "i < length h" and le: "Suc i + k \<le> length h" by simp_all
  have "take (Suc k) (drop i h) = h ! i # take k (drop (Suc i) h)"
    using i by (simp add: Cons_nth_drop_Suc [symmetric])
  then show ?case by (simp add: Suc.IH [OF le])
qed

lemma history_sq_sum_eq:
  "i + k \<le> length h \<Longrightarrow>
   history_sq_sum h m i k a = a + (\<Sum>x\<leftarrow>take k (drop i h). (x - m)\<^sup>2)"
proof (induction k arbitrary: i a)
  case 0
  show ?case by simp
next
  case (Suc k)
  then have i: "i < length h" and le: "Suc i + k \<le> length h" by simp_all
  have "take (Suc k) (drop i h) = h ! i # take k (drop (Suc i) h)"
    using i by (simp add: Cons_nth_drop_Suc [symmetric])
  then show ?case by (simp add: Suc.IH [OF le] Let_def power2_eq_square)
qed

lemma history_mean_eq:
  "length h = HISTORY_SIZE \<Longrightarrow> history_mean h = sum_list h / 50"
  by (simp add: history_mean_def history_sum_eq)

lemma history_variance_eq:
  "length h = HISTORY_SIZE \<Longrightarrow>
   history_variance h = (\<Sum>x\<leftarrow>h. (x - sum_list h / 50)\<^sup>2) / 50"
  by (simp add: history_variance_def history_sq_sum_eq history_mean_eq)

lemma history_constant:
  "history_mean (replicate HISTORY_SIZE c) = c"
  "history_variance (replicate HISTORY_SIZE c) = 0"
  by (simp_all add: history_mean_eq history_variance_eq sum_list_replicate map_replicate_const)

lemma is_stable_constant_3: "is_stable (replicate HISTORY_SIZE 3)"
  by (simp add: is_stable_def history_constant)

lemma process_unfold:
  "auto_calibration_enabled s \<Longrightarrow>
   process_current_for_auto_calibration c s =
     continuous_auto_calibration c
       (s\<lparr>current_history := (current_history s)[history_index s := c],
          history_index := (history_index s + 1) mod HISTORY_SIZE,
          history_full := (history_full s \<or> (history_index s + 1) mod HISTORY_SIZE = 0),
          detected_load_amps := (if mutex_busy s then detected_load_amps s else c)\<rparr>)"
  by (simp add: process_current_for_auto_calibration_def Let_def)

lemma process_history:
  assumes "auto_calibration_enabled s"
  shows "current_history (process_current_for_auto_calibration c s) =
           (current_history s)[history_index s := c]"
    and "history_index (process_current_for_auto_calibration c s) =
           (history_index s + 1) mod HISTORY_SIZE"
    and "history_full (process_current_for_auto_calibration c s) \<longleftrightarrow>
           history_full s \<or> (history_index s + 1) mod HISTORY_SIZE = 0"
    and "auto_calibration_enabled (process_current_for_auto_calibration c s)"
  using assms by (simp_all add: process_unfold continuous_frame)

lemma feed_basic:
  assumes "auto_calibration_enabled s" "length (current_history s) = HISTORY_SIZE"
  shows "auto_calibration_enabled ((process_current_for_auto_calibration c ^^ n) s) \<and>
     length (current_history ((process_current_for_auto_calibration c ^^ n) s)) = HISTORY_SIZE \<and>
     history_index ((process_current_for_auto_calibration c ^^ n) s) mod HISTORY_SIZE =
       (history_index s + n) mod HISTORY_SIZE"
proof (induction n)
  case 0
  show ?case using assms by simp
next
  case (Suc n)
  then have m: "Suc (history_index ((process_current_for_auto_calibration c ^^ n) s)) mod HISTORY_SIZE =
      Suc (history_index s + n) mod HISTORY_SIZE"
    by (metis mod_Suc_eq)
  from Suc show ?case
    by (simp add: process_history m)
qed

lemma feed_index:
  assumes "auto_calibration_enabled s" "length (current_history s) = HISTORY_SIZE"
    "history_index s < HISTORY_SIZE"
  shows "history_index ((process_current_for_auto_calibration c ^^ n) s) =
       (history_index s + n) mod HISTORY_SIZE"
proof (cases n)
  case 0
  then show ?thesis using assms(3) by simp
next
  case (Suc m)
  have "auto_calibration_enabled ((process_current_for_auto_calibration c ^^ m) s)"
    using feed_basic [OF assms(1,2)] by blast
  then have "history_index ((process_current_for_auto_calibration c ^^ n) s) < HISTORY_SIZE"
    unfolding Suc by (simp add: process_history)
  then show ?thesis
    using feed_basic [OF assms(1,2), where c = c and n = n] by simp
qed

lemma feed_written:
  assumes "auto_calibration_enabled s" "length (current_history s) = HISTORY_SIZE"
    "history_index s < HISTORY_SIZE"
  shows "t < n \<Longrightarrow>
     current_history ((process_current_for_auto_calibration c ^^ n) s) !
       ((history_index s + t) mod HISTORY_SIZE) = c"
proof (induction n)
  case 0
  then show ?case by simp
next
  case (Suc n)
  let ?sn = "(process_current_for_auto_calibration c ^^ n) s"
  have en: "auto_calibration_enabled ?sn" and len: "length (current_history ?sn) = HISTORY_SIZE"
    using feed_basic [OF assms(1,2)] by blast+
  have idx: "history_index ?sn = (history_index s + n) mod HISTORY_SIZE"
    by (rule feed_index [OF assms])
  show ?case
  proof (cases "(history_index s + t) mod HISTORY_SIZE = (history_index s + n) mod HISTORY_SIZE")
    case True
    then show ?thesis
      by (simp add: process_history(1) [OF en] idx len)
  next
    case False
    then have "t \<noteq> n" by auto
    with Suc.prems have "t < n" by simp
    from Suc.IH [OF this] False show ?thesis
      by (simp add: process_history(1) [OF en] idx)
  qed
qed

lemma feed_full:
  assumes "auto_calibration_enabled s" "length (current_history s) = HISTORY_SIZE"
    "history_index s < HISTORY_SIZE"
  shows "t < n \<Longrightarrow> (history_index s + t + 1) mod HISTORY_SIZE = 0 \<Longrightarrow>
     history_full ((process_current_for_auto_calibration c ^^ n) s)"
proof (induction n)
  case 0
  then show ?case by simp
next
  case (Suc n)
  let ?sn = "(process_current_for_auto_calibration c ^^ n) s"
  have en: "auto_calibration_enabled ?sn"
    using feed_basic [OF assms(1,2)] by blast
  have idx: "history_index ?sn = (history_index s + n) mod HISTORY_SIZE"
    by (rule feed_index [OF assms])
  show ?case
  proof (cases "t = n")
    case True
    with Suc.prems(2) have "(history_index ?sn + 1) mod HISTORY_SIZE = 0"
      by (simp add: idx mod_Suc_eq)
    then show ?thesis by (simp add: process_history(3) [OF en])
  next
    case False
    with Suc.prems have "t < n" by simp
    from Suc.IH [OF this Suc.prems(2)] show ?thesis
      by (simp add: process_history(3) [OF en])
  qed
qed

lemma feed_fills:
  assumes "auto_calibration_enabled s" "length (current_history s) = HISTORY_SIZE"
    "history_index s < HISTORY_SIZE" "HISTORY_SIZE \<le> n"
  shows "current_history ((process_current_for_auto_calibration c ^^ n) s) = replicate HISTORY_SIZE c"
    and "history_full ((process_current_for_auto_calibration c ^^ n) s)"
proof -
  let ?sn = "(process_current_for_auto_calibration c ^^ n) s"
  have "current_history ?sn ! j = c" if "j < HISTORY_SIZE" for j
  proof -
    define t where "t = (if history_index s \<le> j then j - history_index s
                         else j + HISTORY_SIZE - history_index s)"
    have t: "t < HISTORY_SIZE" "(history_index s + t) mod HISTORY_SIZE = j"
      using that assms(3) by (auto simp: t_def)
    from t(1) assms(4) have "t < n" by simp
    from feed_written [OF assms(1-3) this] t(2) show ?thesis by simp
  qed
  moreover have "length (current_history ?sn) = HISTORY_SIZE"
    using feed_basic [OF assms(1,2)] by blast
  ultimately show "current_history ?sn = replicate HISTORY_SIZE c"
    by (simp add: list_eq_iff_nth_eq)
  define t where "t = 49 - history_index s"
  have t: "t < HISTORY_SIZE" "(history_index s + t + 1) mod HISTORY_SIZE = 0"
    using assms(3) by (simp_all add: t_def)
  from t(1) assms(4) have "t < n" by simp
  from feed_full [OF assms(1-3) this t(2)] show "history_full ?sn" .
qed

lemma feed_idle:
  assumes "auto_calibration_enabled s" "length (current_history s) = HISTORY_SIZE"
    "history_index s = 0" "\<not> history_full s" "\<not> in_stable_period s"
  shows "n < HISTORY_SIZE \<Longrightarrow>
     \<not> history_full ((process_current_for_auto_calibration c ^^ n) s) \<and>
     \<not> in_stable_period ((process_current_for_auto_calibration c ^^ n) s)"
proof (induction n)
  case 0
  show ?case using assms by simp
next
  case (Suc n)
  let ?sn = "(process_current_for_auto_calibration c ^^ n) s"
  have i0: "history_index s < HISTORY_SIZE" using assms(3) by simp
  have en: "auto_calibration_enabled ?sn"
    using feed_basic [OF assms(1,2)] by blast
  have idx: "history_index ?sn = n"
    using feed_index [OF assms(1,2) i0, where c = c and n = n] assms(3) Suc.prems by simp
  from Suc have nf: "\<not> history_full ?sn" and ns: "\<not> in_stable_period ?sn" by simp_all
  define pre where "pre = ?sn\<lparr>current_history := (current_history ?sn)[history_index ?sn := c],
          history_index := (history_index ?sn + 1) mod HISTORY_SIZE,
          history_full := (history_full ?sn \<or> (history_index ?sn + 1) mod HISTORY_SIZE = 0),
          detected_load_amps := (if mutex_busy ?sn then detected_load_amps ?sn else c)\<rparr>"
  have "(history_index ?sn + 1) mod HISTORY_SIZE \<noteq> 0"
    using Suc.prems by (simp add: idx)
  then have p: "\<not> history_full pre" "\<not> in_stable_period pre"
    using nf ns by (simp_all add: pre_def)
  have "(process_current_for_auto_calibration c ^^ Suc n) s = continuous_auto_calibration c pre"
    by (simp add: process_unfold [OF en] pre_def)
  moreover have "\<not> history_full (continuous_auto_calibration c pre) \<and>
      \<not> in_stable_period (continuous_auto_calibration c pre)"
    using p by (cases "c < AUTO_CAL_ZERO_THRESHOLD")
      (simp_all add: continuous_near_zero continuous_not_full)
  ultimately show ?case by simp
qed

lemma feed_start:
  assumes "auto_calibration_enabled s" "length (current_history s) = HISTORY_SIZE"
    "history_index s < HISTORY_SIZE" "HISTORY_SIZE \<le> n"
    and idle: "\<not> in_stable_period ((process_current_for_auto_calibration 3 ^^ (n - 1)) s)"
  shows "(process_current_for_auto_calibration 3 ^^ n) s =
     (let before = (process_current_for_auto_calibration 3 ^^ (n - 1)) s
      in auto_recognize_and_calibrate 3
           (before\<lparr>current_history := replicate HISTORY_SIZE 3,
              history_index := (history_index before + 1) mod HISTORY_SIZE,
              history_full := True,
              detected_load_amps := (if mutex_busy before then detected_load_amps before else 3),
              consecutive_zero_readings := 0,
              tick_reads := Suc (tick_reads before),
              stable_load_start := now_ms before,
              stable_load_value := 3,
              in_stable_period := True\<rparr>))"
proof -
  let ?f = "process_current_for_auto_calibration 3"
  from assms(4) obtain m where n: "n = Suc m" by (cases n) simp_all
  define b where "b = (?f ^^ m) s"
  have step: "(?f ^^ n) s = ?f b" by (simp add: n b_def)
  have before: "(?f ^^ (n - 1)) s = b" by (simp add: n b_def)
  have en: "auto_calibration_enabled b"
    unfolding b_def using feed_basic [OF assms(1,2)] by blast
  have "current_history (?f b) = replicate HISTORY_SIZE 3"
    using feed_fills(1) [OF assms(1-4), where c = 3] by (simp only: step)
  then have h: "(current_history b)[history_index b := 3] = replicate HISTORY_SIZE 3"
    by (simp only: process_history(1) [OF en])
  have "history_full (?f b)"
    using feed_fills(2) [OF assms(1-4), where c = 3] by (simp only: step)
  then have f: "history_full b \<or> (history_index b + 1) mod HISTORY_SIZE = 0"
    by (simp only: process_history(3) [OF en])
  then have f': "(history_full b \<or> Suc (history_index b) mod HISTORY_SIZE = 0) = True"
    by simp
  have i: "\<not> in_stable_period b" using idle unfolding before .
  have "?f b = auto_recognize_and_calibrate 3
           (b\<lparr>current_history := replicate HISTORY_SIZE 3,
              history_index := (history_index b + 1) mod HISTORY_SIZE,
              history_full := True,
              detected_load_amps := (if mutex_busy b then detected_load_amps b else 3),
              consecutive_zero_readings := 0,
              tick_reads := Suc (tick_reads b),
              stable_load_start := now_ms b,
              stable_load_value := 3,
              in_stable_period := True\<rparr>)"
    by (subst process_unfold [OF en], subst continuous_start)
      (simp_all add: h f' i is_stable_constant_3 history_constant now_ms_def)
  then show ?thesis
    by (simp only: step before Let_def)
qed

text \<open>
  Claim C1. The two loops over the window of 50 readings compute its mean and its
  population variance, and the window is stable exactly when the variance is below 0.1
  and the mean lies within \<open>[0.5, 15.0]\<close>. For a reading of at least 0.05 A, the window
  having been filled once, a stable window met outside a stable period starts one: the
  start time is read, \<open>stable_load_value\<close> becomes the mean, and
  \<^verbatim>\<open>auto_recognize_and_calibrate\<close> runs on that value. Feeding 3.0 to
  \<^verbatim>\<open>process_current_for_auto_calibration\<close> 50 times or more leaves a window of fifty
  3.0, of mean 3 and variance 0, which is stable; when the detector was outside a stable
  period before the last of these insertions, that insertion starts one with the value 3
  and runs the recognition on 3. From a state whose window is empty this is the 50th
  insertion: the detector is still idle after 49.
\<close>

theorem stability_detection:
  "(length h = HISTORY_SIZE \<longrightarrow>
      history_mean h = sum_list h / 50 \<and>
      history_variance h = (\<Sum>x\<leftarrow>h. (x - history_mean h)\<^sup>2) / 50) \<and>
   (is_stable h \<longleftrightarrow>
      history_variance h < 0.1 \<and> 0.5 \<le> history_mean h \<and> history_mean h \<le> 15.0) \<and>
   (\<not> r < AUTO_CAL_ZERO_THRESHOLD \<and> history_full s \<and> is_stable (current_history s) \<and>
    \<not> in_stable_period s \<longrightarrow>
      continuous_auto_calibration r s =
        auto_recognize_and_calibrate (history_mean (current_history s))
          (s\<lparr>consecutive_zero_readings := 0, tick_reads := Suc (tick_reads s),
             stable_load_start := now_ms s,
             stable_load_value := history_mean (current_history s),
             in_stable_period := True\<rparr>) \<and>
      in_stable_period (continuous_auto_calibration r s) \<and>
      stable_load_value (continuous_auto_calibration r s) = history_mean (current_history s)) \<and>
   (auto_calibration_enabled s \<and> length (current_history s) = HISTORY_SIZE \<and>
    history_index s < HISTORY_SIZE \<and> HISTORY_SIZE \<le> n \<longrightarrow>
      (let before = (process_current_for_auto_calibration 3 ^^ (n - 1)) s;
           after = (process_current_for_auto_calibration 3 ^^ n) s
       in current_history after = replicate HISTORY_SIZE 3 \<and>
          history_full after \<and>
          history_mean (current_history after) = 3 \<and>
          history_variance (current_history after) = 0 \<and>
          is_stable (current_history after) \<and>
          (\<not> in_stable_period before \<longrightarrow>
             after = auto_recognize_and_calibrate 3
               (before\<lparr>current_history := replicate HISTORY_SIZE 3,
                  history_index := (history_index before + 1) mod HISTORY_SIZE,
                  history_full := True,
                  detected_load_amps :=
                    (if mutex_busy before then detected_load_amps before else 3),
                  consecutive_zero_readings := 0,
                  tick_reads := Suc (tick_reads before),
                  stable_load_start := now_ms before,
                  stable_load_value := 3,
                  in_stable_period := True\<rparr>) \<and>
             in_stable_period after \<and> stable_load_value after = 3))) \<and>
   (auto_calibration_enabled s \<and> length (current_history s) = HISTORY_SIZE \<and>
    history_index s = 0 \<and> \<not> history_full s \<and> \<not> in_stable_period s \<longrightarrow>
      \<not> in_stable_period ((process_current_for_auto_calibration 3 ^^ 49) s) \<and>
      in_stable_period ((process_current_for_auto_calibration 3 ^^ 50) s) \<and>
      stable_load_value ((process_current_for_auto_calibration 3 ^^ 50) s) = 3)"
proof (intro conjI impI)
  assume "length h = HISTORY_SIZE"
  then show "history_mean h = sum_list h / 50"
    and "history_variance h = (\<Sum>x\<leftarrow>h. (x - history_mean h)\<^sup>2) / 50"
    by (simp_all add: history_mean_eq history_variance_eq)
next
  show "is_stable h \<longleftrightarrow>
      history_variance h < 0.1 \<and> 0.5 \<le> history_mean h \<and> history_mean h \<le> 15.0"
    by (simp add: is_stable_def)
next
  assume "\<not> r < AUTO_CAL_ZERO_THRESHOLD \<and> history_full s \<and> is_stable (current_history s) \<and>
    \<not> in_stable_period s"
  then have a: "\<not> r < AUTO_CAL_ZERO_THRESHOLD" "history_full s" "is_stable (current_history s)"
    "\<not> in_stable_period s" by simp_all
  show "continuous_auto_calibration r s =
        auto_recognize_and_calibrate (history_mean (current_history s))
          (s\<lparr>consecutive_zero_readings := 0, tick_reads := Suc (tick_reads s),
             stable_load_start := now_ms s,
             stable_load_value := history_mean (current_history s),
             in_stable_period := True\<rparr>)"
    by (rule continuous_start [OF a])
  show "in_stable_period (continuous_auto_calibration r s)"
    by (simp add: continuous_start [OF a] auto_recognize_frame)
  show "stable_load_value (continuous_auto_calibration r s) = history_mean (current_history s)"
    by (simp add: continuous_start [OF a] auto_recognize_frame)
next
  assume "auto_calibration_enabled s \<and> length (current_history s) = HISTORY_SIZE \<and>
    history_index s < HISTORY_SIZE \<and> HISTORY_SIZE \<le> n"
  then have a: "auto_calibration_enabled s" "length (current_history s) = HISTORY_SIZE"
    "history_index s < HISTORY_SIZE" "HISTORY_SIZE \<le> n" by simp_all
  let ?b = "(process_current_for_auto_calibration 3 ^^ (n - 1)) s"
  let ?a = "(process_current_for_auto_calibration 3 ^^ n) s"
  let ?pre = "?b\<lparr>current_history := replicate HISTORY_SIZE 3,
                  history_index := (history_index ?b + 1) mod HISTORY_SIZE,
                  history_full := True,
                  detected_load_amps := (if mutex_busy ?b then detected_load_amps ?b else 3),
                  consecutive_zero_readings := 0,
                  tick_reads := Suc (tick_reads ?b),
                  stable_load_start := now_ms ?b,
                  stable_load_value := 3,
                  in_stable_period := True\<rparr>"
  have h: "current_history ?a = replicate HISTORY_SIZE 3" and f: "history_full ?a"
    by (rule feed_fills [OF a])+
  have st: "?a = auto_recognize_and_calibrate 3 ?pre" if "\<not> in_stable_period ?b"
    using feed_start [OF a that] by (simp only: Let_def)
  have "\<not> in_stable_period ?b \<longrightarrow>
      ?a = auto_recognize_and_calibrate 3 ?pre \<and> in_stable_period ?a \<and> stable_load_value ?a = 3"
  proof
    assume i: "\<not> in_stable_period ?b"
    have "in_stable_period (auto_recognize_and_calibrate 3 ?pre)"
      "stable_load_value (auto_recognize_and_calibrate 3 ?pre) = 3"
      by (simp_all add: auto_recognize_frame)
    with st [OF i] show "?a = auto_recognize_and_calibrate 3 ?pre \<and> in_stable_period ?a \<and>
        stable_load_value ?a = 3"
      by (simp only:)
  qed
  with h f show "let before = ?b; after = ?a
       in current_history after = replicate HISTORY_SIZE 3 \<and>
          history_full after \<and>
          history_mean (current_history after) = 3 \<and>
          history_variance (current_history after) = 0 \<and>
          is_stable (current_history after) \<and>
          (\<not> in_stable_period before \<longrightarrow>
             after = auto_recognize_and_calibrate 3
               (before\<lparr>current_history := replicate HISTORY_SIZE 3,
                  history_index := (history_index before + 1) mod HISTORY_SIZE,
                  history_full := True,
                  detected_load_amps :=
                    (if mutex_busy before then detected_load_amps before else 3),
                  consecutive_zero_readings := 0,
                  tick_reads := Suc (tick_reads before),
                  stable_load_start := now_ms before,
                  stable_load_value := 3,
                  in_stable_period := True\<rparr>) \<and>
             in_stable_period after \<and> stable_load_value after = 3)"
    unfolding Let_def
    by (simp only: history_constant is_stable_constant_3 simp_thms)
next
  assume "auto_calibration_enabled s \<and> length (current_history s) = HISTORY_SIZE \<and>
    history_index s = 0 \<and> \<not> history_full s \<and> \<not> in_stable_period s"
  then have a: "auto_calibration_enabled s" "length (current_history s) = HISTORY_SIZE"
    "history_index s = 0" "\<not> history_full s" "\<not> in_stable_period s" by simp_all
  have i0: "history_index s < HISTORY_SIZE" using a(3) by simp
  show idle: "\<not> in_stable_period ((process_current_for_auto_calibration 3 ^^ 49) s)"
    using feed_idle [OF a, of 49 3] by simp
  have "(process_current_for_auto_calibration 3 ^^ 50) s =
      auto_recognize_and_calibrate 3
        (let before = (process_current_for_auto_calibration 3 ^^ (50 - 1)) s
         in before\<lparr>current_history := replicate HISTORY_SIZE 3,
              history_index := (history_index before + 1) mod HISTORY_SIZE,
              history_full := True,
              detected_load_amps := (if mutex_busy before then detected_load_amps before else 3),
              consecutive_zero_readings := 0,
              tick_reads := Suc (tick_reads before),
              stable_load_start := now_ms before,
              stable_load_value := 3,
              in_stable_period := True\<rparr>)"
    using feed_start [OF a(1,2) i0, of 50] idle by (simp add: Let_def)
  then show "in_stable_period ((process_current_for_auto_calibration 3 ^^ 50) s)"
    and "stable_load_value ((process_current_for_auto_calibration 3 ^^ 50) s) = 3"
    by (simp_all add: auto_recognize_frame Let_def)
qed


theorem stability_detection_witness:
  "history_mean (replicate HISTORY_SIZE 3) = 3 \<and>
   history_variance (replicate HISTORY_SIZE 3) = 0 \<and>
   is_stable (replicate HISTORY_SIZE 3) \<and>
   in_stable_period (continuous_auto_calibration 3
      ((holding_state 0)\<lparr>in_stable_period := False\<rparr>)) \<and>
   stable_load_value (continuous_auto_calibration 3
      ((holding_state 0)\<lparr>in_stable_period := False\<rparr>)) = 3 \<and>
   current_history ((process_current_for_auto_calibration 3 ^^ 50) (sampled_state 0)) =
     replicate HISTORY_SIZE 3 \<and>
   history_full ((process_current_for_auto_calibration 3 ^^ 50) (sampled_state 0)) \<and>
   \<not> in_stable_period ((process_current_for_auto_calibration 3 ^^ 49) (sampled_state 0)) \<and>
   in_stable_period ((process_current_for_auto_calibration 3 ^^ 50) (sampled_state 0)) \<and>
   stable_load_value ((process_current_for_auto_calibration 3 ^^ 50) (sampled_state 0)) = 3"
proof -
  let ?idle = "(holding_state 0)\<lparr>in_stable_period := False\<rparr>"
  let ?h = "replicate HISTORY_SIZE (3::real)"
  let ?f = "process_current_for_auto_calibration 3"
  have s0: "auto_calibration_enabled (sampled_state 0)"
    "length (current_history (sampled_state 0)) = HISTORY_SIZE"
    "history_index (sampled_state 0) = 0" "\<not> history_full (sampled_state 0)"
    "\<not> in_stable_period (sampled_state 0)"
    by (simp_all add: sampled_state_def initial_state_def)
  note T = stability_detection [where h = ?h and r = 3 and s = "sampled_state 0" and n = 50]
  note T4 = T [THEN conjunct2, THEN conjunct2, THEN conjunct2, THEN conjunct1]
  note T5 = T [THEN conjunct2, THEN conjunct2, THEN conjunct2, THEN conjunct2]
  have "auto_calibration_enabled (sampled_state 0) \<and>
      length (current_history (sampled_state 0)) = HISTORY_SIZE \<and>
      history_index (sampled_state 0) < HISTORY_SIZE \<and> HISTORY_SIZE \<le> (50::nat)"
    using s0 by simp
  from T4 [THEN mp, OF this]
  have f: "current_history ((?f ^^ 50) (sampled_state 0)) = ?h \<and>
      history_full ((?f ^^ 50) (sampled_state 0)) \<and>
      history_mean (current_history ((?f ^^ 50) (sampled_state 0))) = 3 \<and>
      history_variance (current_history ((?f ^^ 50) (sampled_state 0))) = 0 \<and>
      is_stable (current_history ((?f ^^ 50) (sampled_state 0)))"
    unfolding Let_def by blast
  then have m: "history_mean ?h = 3" "history_variance ?h = 0" "is_stable ?h"
    by auto
  have "auto_calibration_enabled (sampled_state 0) \<and>
      length (current_history (sampled_state 0)) = HISTORY_SIZE \<and>
      history_index (sampled_state 0) = 0 \<and> \<not> history_full (sampled_state 0) \<and>
      \<not> in_stable_period (sampled_state 0)"
    using s0 by simp
  from T5 [THEN mp, OF this]
  have g: "\<not> in_stable_period ((?f ^^ 49) (sampled_state 0)) \<and>
      in_stable_period ((?f ^^ 50) (sampled_state 0)) \<and>
      stable_load_value ((?f ^^ 50) (sampled_state 0)) = 3" .
  have i: "history_full ?idle" "current_history ?idle = ?h" "\<not> in_stable_period ?idle"
    by (simp_all add: holding_state_def initial_state_def)
  note U = stability_detection [where h = ?h and r = 3 and s = ?idle and n = 50]
  note U3 = U [THEN conjunct2, THEN conjunct2, THEN conjunct1]
  have "\<not> (3::real) < AUTO_CAL_ZERO_THRESHOLD \<and> history_full ?idle \<and>
      is_stable (current_history ?idle) \<and> \<not> in_stable_period ?idle"
    using i m by simp
  from U3 [THEN mp, OF this]
  have c: "in_stable_period (continuous_auto_calibration 3 ?idle) \<and>
      stable_load_value (continuous_auto_calibration 3 ?idle) = 3"
    using i m by auto
  from m c f g show ?thesis by simp
qed

subsection \<open>The stable period and the recalibration\<close>

lemma continuous_in_stable_period:
  assumes "\<not> r < AUTO_CAL_ZERO_THRESHOLD" "history_full s"
  shows "in_stable_period (continuous_auto_calibration r s) \<longleftrightarrow>
     is_stable (current_history s) \<and>
     (in_stable_period s \<longrightarrow> \<not> now_ms s - stable_load_start s > DEVICE_STABLE_TIME_MS)"
proof (cases "is_stable (current_history s)")
  case False
  then show ?thesis by (simp add: continuous_unstable [OF assms])
next
  case st: True
  show ?thesis
  proof (cases "in_stable_period s")
    case False
    then show ?thesis
      by (simp add: continuous_start [OF assms st] auto_recognize_frame st)
  next
    case ins: True
    show ?thesis
    proof (cases "now_ms s - stable_load_start s > DEVICE_STABLE_TIME_MS")
      case False
      then show ?thesis by (simp add: continuous_hold [OF assms st ins] st ins)
    next
      case held: True
      show ?thesis
        by (cases "now_ms s - last_scale_calibration s > AUTO_CAL_ZERO_INTERVAL_MS")
          (simp_all add: continuous_release [OF assms st ins held]
            continuous_recalibrate [OF assms st ins held] Let_def st ins held)
    qed
  qed
qed

lemma continuous_auto_cal_count:
  assumes "\<not> r < AUTO_CAL_ZERO_THRESHOLD" "history_full s"
  shows "auto_cal_count (continuous_auto_calibration r s) =
     (if is_stable (current_history s) \<and> in_stable_period s \<and>
         now_ms s - stable_load_start s > DEVICE_STABLE_TIME_MS \<and>
         now_ms s - last_scale_calibration s > AUTO_CAL_ZERO_INTERVAL_MS
      then auto_cal_count s + 1 else auto_cal_count s)"
proof (cases "is_stable (current_history s)")
  case False
  then show ?thesis by (simp add: continuous_unstable [OF assms])
next
  case st: True
  show ?thesis
  proof (cases "in_stable_period s")
    case False
    then show ?thesis
      by (simp add: continuous_start [OF assms st] auto_recognize_frame st)
  next
    case ins: True
    show ?thesis
    proof (cases "now_ms s - stable_load_start s > DEVICE_STABLE_TIME_MS")
      case False
      then show ?thesis by (simp add: continuous_hold [OF assms st ins] st ins)
    next
      case held: True
      show ?thesis
        by (cases "now_ms s - last_scale_calibration s > AUTO_CAL_ZERO_INTERVAL_MS")
          (simp_all add: continuous_release [OF assms st ins held]
            continuous_recalibrate [OF assms st ins held] Let_def st ins held
            learn_from_calibration_fields)
    qed
  qed
qed

text \<open>
  Claim C4, amended. For a reading of at least 0.05 A on a filled window, the detector is
  in a stable period afterwards exactly when the window is stable and the detector was
  either idle or in a stable period of at most \<^verbatim>\<open>DEVICE_STABLE_TIME_MS\<close> (3 minutes):
  a window that is not stable, and a stable period held beyond 3 minutes, both return it
  to idle, the latter whatever the time since the last scale calibration. The scale
  recalibration with \<open>stable_load_value\<close> runs (and \<open>auto_cal_count\<close> goes up by one)
  exactly when the window is stable, the period has been held beyond 3 minutes and the
  last scale calibration is more than 30 minutes old.
\<close>

theorem stability_state_machine_steps:
  "\<not> r < AUTO_CAL_ZERO_THRESHOLD \<and> history_full s \<longrightarrow>
     (in_stable_period (continuous_auto_calibration r s) \<longleftrightarrow>
        is_stable (current_history s) \<and>
        (in_stable_period s \<longrightarrow> \<not> now_ms s - stable_load_start s > DEVICE_STABLE_TIME_MS)) \<and>
     auto_cal_count (continuous_auto_calibration r s) =
       (if is_stable (current_history s) \<and> in_stable_period s \<and>
           now_ms s - stable_load_start s > DEVICE_STABLE_TIME_MS \<and>
           now_ms s - last_scale_calibration s > AUTO_CAL_ZERO_INTERVAL_MS
        then auto_cal_count s + 1 else auto_cal_count s) \<and>
     (is_stable (current_history s) \<and> in_stable_period s \<and>
      now_ms s - stable_load_start s > DEVICE_STABLE_TIME_MS \<and>
      now_ms s - last_scale_calibration s > AUTO_CAL_ZERO_INTERVAL_MS \<longrightarrow>
        continuous_auto_calibration r s =
          (let s1 = s\<lparr>consecutive_zero_readings := 0, tick_reads := Suc (tick_reads s)\<rparr>;
               s4 = (calibrate_with_known_load (stable_load_value s) s1)
                      \<lparr>last_scale_calibration := now_ms s, auto_cal_count := auto_cal_count s + 1\<rparr>
           in (learn_from_calibration (stable_load_value s)
                 (stable_load_value s / get_amps_per_volt s4) False s4)
                \<lparr>in_stable_period := False\<rparr>)) \<and>
     (is_stable (current_history s) \<and> in_stable_period s \<and>
      now_ms s - stable_load_start s > DEVICE_STABLE_TIME_MS \<and>
      \<not> now_ms s - last_scale_calibration s > AUTO_CAL_ZERO_INTERVAL_MS \<longrightarrow>
        continuous_auto_calibration r s =
          s\<lparr>consecutive_zero_readings := 0, tick_reads := Suc (tick_reads s),
            in_stable_period := False\<rparr>) \<and>
     (is_stable (current_history s) \<and> in_stable_period s \<and>
      \<not> now_ms s - stable_load_start s > DEVICE_STABLE_TIME_MS \<longrightarrow>
        continuous_auto_calibration r s =
          s\<lparr>consecutive_zero_readings := 0, tick_reads := Suc (tick_reads s)\<rparr>) \<and>
     (\<not> is_stable (current_history s) \<longrightarrow>
        continuous_auto_calibration r s =
          s\<lparr>consecutive_zero_readings := 0, in_stable_period := False\<rparr>)"
proof (intro impI)
  assume "\<not> r < AUTO_CAL_ZERO_THRESHOLD \<and> history_full s"
  then have a: "\<not> r < AUTO_CAL_ZERO_THRESHOLD" "history_full s" by simp_all
  show "(in_stable_period (continuous_auto_calibration r s) \<longleftrightarrow>
        is_stable (current_history s) \<and>
        (in_stable_period s \<longrightarrow> \<not> now_ms s - stable_load_start s > DEVICE_STABLE_TIME_MS)) \<and>
     auto_cal_count (continuous_auto_calibration r s) =
       (if is_stable (current_history s) \<and> in_stable_period s \<and>
           now_ms s - stable_load_start s > DEVICE_STABLE_TIME_MS \<and>
           now_ms s - last_scale_calibration s > AUTO_CAL_ZERO_INTERVAL_MS
        then auto_cal_count s + 1 else auto_cal_count s) \<and>
     (is_stable (current_history s) \<and> in_stable_period s \<and>
      now_ms s - stable_load_start s > DEVICE_STABLE_TIME_MS \<and>
      now_ms s - last_scale_calibration s > AUTO_CAL_ZERO_INTERVAL_MS \<longrightarrow>
        continuous_auto_calibration r s =
          (let s1 = s\<lparr>consecutive_zero_readings := 0, tick_reads := Suc (tick_reads s)\<rparr>;
               s4 = (calibrate_with_known_load (stable_load_value s) s1)
                      \<lparr>last_scale_calibration := now_ms s, auto_cal_count := auto_cal_count s + 1\<rparr>
           in (learn_from_calibration (stable_load_value s)
                 (stable_load_value s / get_amps_per_volt s4) False s4)
                \<lparr>in_stable_period := False\<rparr>)) \<and>
     (is_stable (current_history s) \<and> in_stable_period s \<and>
      now_ms s - stable_load_start s > DEVICE_STABLE_TIME_MS \<and>
      \<not> now_ms s - last_scale_calibration s > AUTO_CAL_ZERO_INTERVAL_MS \<longrightarrow>
        continuous_auto_calibration r s =
          s\<lparr>consecutive_zero_readings := 0, tick_reads := Suc (tick_reads s),
            in_stable_period := False\<rparr>) \<and>
     (is_stable (current_history s) \<and> in_stable_period s \<and>
      \<not> now_ms s - stable_load_start s > DEVICE_STABLE_TIME_MS \<longrightarrow>
        continuous_auto_calibration r s =
          s\<lparr>consecutive_zero_readings := 0, tick_reads := Suc (tick_reads s)\<rparr>) \<and>
     (\<not> is_stable (current_history s) \<longrightarrow>
        continuous_auto_calibration r s =
          s\<lparr>consecutive_zero_readings := 0, in_stable_period := False\<rparr>)"
    using continuous_in_stable_period [OF a] continuous_auto_cal_count [OF a]
      continuous_recalibrate [OF a] continuous_release [OF a] continuous_hold [OF a]
      continuous_unstable [OF a]
    by blast
qed

lemma holding_state_fields:
  "history_full (holding_state t)" "in_stable_period (holding_state t)"
  "is_stable (current_history (holding_state t))"
  "now_ms (holding_state t) = t" "stable_load_start (holding_state t) = 100000"
  "last_scale_calibration (holding_state t) = 0" "auto_cal_count (holding_state t) = 0"
  "stable_load_value (holding_state t) = 3"
  by (simp_all add: holding_state_def initial_state_def now_ms_def is_stable_constant_3)

theorem stability_state_machine_steps_witness:
  "\<not> in_stable_period (continuous_auto_calibration 3 (holding_state 300000)) \<and>
   auto_cal_count (continuous_auto_calibration 3 (holding_state 300000)) = 0 \<and>
   in_stable_period (continuous_auto_calibration 3 (holding_state 150000)) \<and>
   auto_cal_count (continuous_auto_calibration 3 (holding_state 150000)) = 0 \<and>
   \<not> in_stable_period (continuous_auto_calibration 3 (holding_state 2000000)) \<and>
   auto_cal_count (continuous_auto_calibration 3 (holding_state 2000000)) = 1 \<and>
   \<not> in_stable_period (continuous_auto_calibration 3
        ((holding_state 150000)\<lparr>current_history := replicate HISTORY_SIZE 0\<rparr>))"
proof -
  have u: "history_full ((holding_state 150000)\<lparr>current_history := replicate HISTORY_SIZE 0\<rparr>)"
    "\<not> is_stable (current_history
        ((holding_state 150000)\<lparr>current_history := replicate HISTORY_SIZE 0\<rparr>))"
    by (simp_all add: holding_state_fields is_stable_def history_constant)
  have "\<not> in_stable_period (continuous_auto_calibration 3 (holding_state 300000)) \<and>
      auto_cal_count (continuous_auto_calibration 3 (holding_state 300000)) = 0"
    using stability_state_machine_steps [of 3 "holding_state 300000"]
    by (simp add: holding_state_fields)
  moreover have "in_stable_period (continuous_auto_calibration 3 (holding_state 150000)) \<and>
      auto_cal_count (continuous_auto_calibration 3 (holding_state 150000)) = 0"
    using stability_state_machine_steps [of 3 "holding_state 150000"]
    by (simp add: holding_state_fields)
  moreover have "\<not> in_stable_period (continuous_auto_calibration 3 (holding_state 2000000)) \<and>
      auto_cal_count (continuous_auto_calibration 3 (holding_state 2000000)) = 1"
    using stability_state_machine_steps [of 3 "holding_state 2000000"]
    by (auto simp: holding_state_fields)
  moreover have "\<not> in_stable_period (continuous_auto_calibration 3
        ((holding_state 150000)\<lparr>current_history := replicate HISTORY_SIZE 0\<rparr>))"
    using stability_state_machine_steps
      [of 3 "(holding_state 150000)\<lparr>current_history := replicate HISTORY_SIZE 0\<rparr>"] u
    by simp
  ultimately show ?thesis by simp
qed

text \<open>
  A stable window, in a stable period begun 200 s ago, 300 s after the start and hence
  less than 30 minutes after the last scale calibration: the two conditions do not both
  hold, yet the detector returns to idle, without a recalibration.
\<close>

theorem stability_release_without_recalibration_counterexample:
  "\<not> (3::real) < AUTO_CAL_ZERO_THRESHOLD \<and> history_full (holding_state 300000) \<and>
   is_stable (current_history (holding_state 300000)) \<and>
   in_stable_period (holding_state 300000) \<and>
   now_ms (holding_state 300000) - stable_load_start (holding_state 300000) > DEVICE_STABLE_TIME_MS \<and>
   \<not> now_ms (holding_state 300000) - last_scale_calibration (holding_state 300000)
       > AUTO_CAL_ZERO_INTERVAL_MS \<and>
   \<not> in_stable_period (continuous_auto_calibration 3 (holding_state 300000)) \<and>
   auto_cal_count (continuous_auto_calibration 3 (holding_state 300000)) =
     auto_cal_count (holding_state 300000)"
  by (simp add: holding_state_fields continuous_in_stable_period continuous_auto_cal_count)

end
